theory Spec2Isabelle
  imports Complex_Main
begin

section \<open>Python values\<close>

text \<open>
  A Python \<open>str\<close> is the list of its Unicode code points. Literals of the source are
  written \<open>u ''...''\<close>; the few characters outside ASCII that the source names (smart
  quotes, the byte-order mark, the two emoji of the reasoning prefix) are given by code
  point.
\<close>

type_synonym ustr = "nat list"

definition u :: "string \<Rightarrow> ustr" where
  "u s = map of_char s"

text \<open>\<open>str.isspace\<close> per character, which is also what \<open>str.strip()\<close> removes and what
  \<open>\s\<close> matches in a \<open>str\<close> pattern.\<close>

definition isspace :: "nat \<Rightarrow> bool" where
  "isspace c = ((9 \<le> c \<and> c \<le> 13) \<or> (28 \<le> c \<and> c \<le> 32) \<or> c = 133 \<or> c = 160
     \<or> c = 5760 \<or> (8192 \<le> c \<and> c \<le> 8202) \<or> c = 8232 \<or> c = 8233 \<or> c = 8239
     \<or> c = 8287 \<or> c = 12288)"

definition lstrip :: "ustr \<Rightarrow> ustr" where
  "lstrip s = dropWhile isspace s"

definition rstrip :: "ustr \<Rightarrow> ustr" where
  "rstrip s = rev (dropWhile isspace (rev s))"

definition strip :: "ustr \<Rightarrow> ustr" where
  "strip s = rstrip (lstrip s)"

fun startswith :: "ustr \<Rightarrow> ustr \<Rightarrow> bool" where
  "startswith s [] = True"
| "startswith [] (p # ps) = False"
| "startswith (c # cs) (p # ps) = (c = p \<and> startswith cs ps)"

definition endswith :: "ustr \<Rightarrow> ustr \<Rightarrow> bool" where
  "endswith s p = startswith (rev s) (rev p)"

text \<open>\<open>p in s\<close> on strings: \<open>p\<close> occurs in \<open>s\<close> as a contiguous substring.\<close>

fun str_in :: "ustr \<Rightarrow> ustr \<Rightarrow> bool" where
  "str_in p [] = (p = [])"
| "str_in p (c # cs) = (startswith (c # cs) p \<or> str_in p cs)"

text \<open>\<open>sep.join(parts)\<close>.\<close>

fun join :: "ustr \<Rightarrow> ustr list \<Rightarrow> ustr" where
  "join sep [] = []"
| "join sep [x] = x"
| "join sep (x # y # ys) = x @ sep @ join sep (y # ys)"

text \<open>
  A Python \<open>float\<close>. A finite double is modelled by the real number it denotes and
  arithmetic on finite values is exact; the two infinities and NaN are values of their
  own, with the comparisons of IEEE 754 (every comparison with NaN is false).
\<close>

datatype pyfloat = Fin real | PInf | NInf | NaN

fun pf_lt :: "pyfloat \<Rightarrow> pyfloat \<Rightarrow> bool" where
  "pf_lt NaN y = False"
| "pf_lt x NaN = False"
| "pf_lt (Fin a) (Fin b) = (a < b)"
| "pf_lt (Fin a) PInf = True"
| "pf_lt (Fin a) NInf = False"
| "pf_lt PInf y = False"
| "pf_lt NInf (Fin b) = True"
| "pf_lt NInf PInf = True"
| "pf_lt NInf NInf = False"

definition pf_gt :: "pyfloat \<Rightarrow> pyfloat \<Rightarrow> bool" where
  "pf_gt x y = pf_lt y x"

definition pf_ge :: "pyfloat \<Rightarrow> pyfloat \<Rightarrow> bool" where
  "pf_ge x y = (x \<noteq> NaN \<and> y \<noteq> NaN \<and> \<not> pf_lt x y)"

text \<open>\<open>x / d\<close> for a finite, positive \<open>d\<close>. The quotient is exact here, where the
  double division of the code rounds it (1.1 / 100.0 is 0.011000000000000001); zero,
  one and the order of values are not affected by that rounding.\<close>

fun pf_div :: "pyfloat \<Rightarrow> real \<Rightarrow> pyfloat" where
  "pf_div (Fin a) d = Fin (a / d)"
| "pf_div x d = x"

text \<open>\<open>min(a, b)\<close> and \<open>max(a, b)\<close> of two arguments: the first argument is kept unless
  the second compares strictly below (above) it.\<close>

definition py_min :: "pyfloat \<Rightarrow> pyfloat \<Rightarrow> pyfloat" where
  "py_min a b = (if pf_lt b a then b else a)"

definition py_max :: "pyfloat \<Rightarrow> pyfloat \<Rightarrow> pyfloat" where
  "py_max a b = (if pf_gt b a then b else a)"

text \<open>The range a confidence is meant to lie in.\<close>

fun in_unit_interval :: "pyfloat \<Rightarrow> bool" where
  "in_unit_interval (Fin a) = (0 \<le> a \<and> a \<le> 1)"
| "in_unit_interval x = False"

text \<open>What \<open>json.loads\<close> returns: \<open>None\<close>, a \<open>bool\<close>, an \<open>int\<close>, a \<open>float\<close>, a
  \<open>str\<close>, a \<open>list\<close> or a \<open>dict\<close> (an association list; the first entry of a key is its
  value).\<close>

datatype json =
    JNull
  | JBool bool
  | JInt int
  | JFloat pyfloat
  | JStr ustr
  | JList "json list"
  | JObj "(ustr \<times> json) list"

text \<open>
  The functions of the Python runtime that the source calls and that are not plain list
  operations are parameters of the model: \<open>str.lower\<close>, \<open>json.loads\<close> (\<open>Inl\<close> carries
  the message of the \<open>JSONDecodeError\<close>), \<open>float\<close> on a string (\<open>None\<close> is the
  \<open>ValueError\<close>) and \<open>str\<close> on a value that is not a string.
\<close>

record pylib =
  str_lower :: "ustr \<Rightarrow> ustr"
  json_loads :: "ustr \<Rightarrow> ustr + json"
  float_of_str :: "ustr \<Rightarrow> pyfloat option"
  str_of_value :: "json \<Rightarrow> ustr"

text \<open>\<open>str(v)\<close>: a string is returned as it is.\<close>

definition py_str :: "pylib \<Rightarrow> json \<Rightarrow> ustr" where
  "py_str L v = (case v of JStr s \<Rightarrow> s | _ \<Rightarrow> str_of_value L v)"

text \<open>\<open>d.get(k, default)\<close> on a dict.\<close>

definition dict_get :: "('k \<rightharpoonup> 'v) \<Rightarrow> 'k \<Rightarrow> 'v \<Rightarrow> 'v" where
  "dict_get d k dflt = (case d k of None \<Rightarrow> dflt | Some v \<Rightarrow> v)"

section \<open>Messages, rules and decisions\<close>

text \<open>\<open>client/models.py\<close>: \<open>Email\<close> and \<open>Email.to_dict\<close>.\<close>

record Email =
  em_uid :: int
  em_from_addr :: ustr
  em_to_addr :: ustr
  em_subject :: ustr
  em_body :: ustr
  em_date :: ustr

type_synonym email_data = "string \<rightharpoonup> ustr"

definition to_dict :: "Email \<Rightarrow> email_data" where
  "to_dict e = [''from'' \<mapsto> em_from_addr e, ''to'' \<mapsto> em_to_addr e,
     ''subject'' \<mapsto> em_subject e, ''body'' \<mapsto> em_body e, ''date'' \<mapsto> em_date e]"

text \<open>\<open>analyzer/models.py\<close> and the dataclass of \<open>analyzer/ollama.py\<close>: \<open>AnalysisResult\<close>.\<close>

record AnalysisResult =
  ar_forward_to :: ustr
  ar_category :: ustr
  ar_confidence :: pyfloat
  ar_reasoning :: ustr
  ar_additional_destinations :: "ustr list"
  ar_raw_response :: ustr

text \<open>\<open>router/models.py\<close>: \<open>Rule\<close> and \<open>Rule.matches\<close>. A predicate is checked when its
  field is truthy: present and not empty.\<close>

record Rule =
  rule_name :: ustr
  rule_match_from :: "ustr option"
  rule_match_subject :: "ustr list option"
  rule_match_keywords :: "ustr list option"
  rule_forward_to :: ustr

definition star :: nat where
  "star = 42"

definition from_check :: "pylib \<Rightarrow> ustr \<Rightarrow> email_data \<Rightarrow> bool" where
  "from_check L match_from ed =
     (let sender = str_lower L (dict_get ed ''from'' []);
          pattern = str_lower L (filter (\<lambda>c. c \<noteq> star) match_from)
      in str_in pattern sender)"

definition subject_check :: "pylib \<Rightarrow> ustr list \<Rightarrow> email_data \<Rightarrow> bool" where
  "subject_check L match_subject ed =
     (let subject = str_lower L (dict_get ed ''subject'' [])
      in list_ex (\<lambda>kw. str_in (str_lower L kw) subject) match_subject)"

definition keywords_check :: "pylib \<Rightarrow> ustr list \<Rightarrow> email_data \<Rightarrow> bool" where
  "keywords_check L match_keywords ed =
     (let body = str_lower L (dict_get ed ''body'' []);
          subject = str_lower L (dict_get ed ''subject'' []);
          text = subject @ u '' '' @ body
      in list_ex (\<lambda>kw. str_in (str_lower L kw) text) match_keywords)"

definition matches :: "pylib \<Rightarrow> Rule \<Rightarrow> email_data \<Rightarrow> bool" where
  "matches L r ed =
     (if (case rule_match_from r of
            None \<Rightarrow> False | Some p \<Rightarrow> p \<noteq> [] \<and> \<not> from_check L p ed) then False
      else if (case rule_match_subject r of
                 None \<Rightarrow> False | Some kws \<Rightarrow> kws \<noteq> [] \<and> \<not> subject_check L kws ed) then False
      else if (case rule_match_keywords r of
                 None \<Rightarrow> False | Some kws \<Rightarrow> kws \<noteq> [] \<and> \<not> keywords_check L kws ed) then False
      else True)"

record RoutingDecision =
  rd_forward_to :: ustr
  rd_matched_rule :: "ustr option"
  rd_ai_result :: "AnalysisResult option"
  rd_should_forward :: bool
  rd_additional_destinations :: "ustr list"

definition all_destinations :: "RoutingDecision \<Rightarrow> ustr list" where
  "all_destinations d =
     (if rd_forward_to d \<noteq> [] then [rd_forward_to d] else []) @ rd_additional_destinations d"

text \<open>\<open>router/engine.py\<close>: \<open>Router\<close>. The analyzer is the \<open>analyze\<close> method of the
  object the constructor chose, or absent.\<close>

record Router =
  rules :: "Rule list"
  default_action :: ustr
  analyzer :: "(email_data \<Rightarrow> AnalysisResult) option"

definition Router_init ::
  "Rule list \<Rightarrow> bool \<Rightarrow> ustr \<Rightarrow> ustr \<Rightarrow> ustr
     \<Rightarrow> (email_data \<Rightarrow> AnalysisResult) \<Rightarrow> (email_data \<Rightarrow> AnalysisResult) \<Rightarrow> Router" where
  "Router_init rs ai_enabled gemini_api_key ollama_model dflt ollama gemini =
     \<lparr>rules = rs, default_action = dflt,
      analyzer = (if ai_enabled
                  then (if ollama_model \<noteq> [] then Some ollama
                        else if gemini_api_key \<noteq> [] then Some gemini else None)
                  else None)\<rparr>"

text \<open>The loop over the rules of \<open>Router.decide\<close>: the decision of the first rule that
  matches, if there is one.\<close>

fun check_rules :: "pylib \<Rightarrow> Rule list \<Rightarrow> email_data \<Rightarrow> RoutingDecision option" where
  "check_rules L [] ed = None"
| "check_rules L (r # rs) ed =
     (if matches L r ed
      then Some \<lparr>rd_forward_to = rule_forward_to r, rd_matched_rule = Some (rule_name r),
                 rd_ai_result = None, rd_should_forward = (rule_forward_to r \<noteq> []),
                 rd_additional_destinations = []\<rparr>
      else check_rules L rs ed)"

definition auto_forward_threshold_decide :: pyfloat where
  "auto_forward_threshold_decide = Fin (7 / 10)"

definition decide :: "pylib \<Rightarrow> Router \<Rightarrow> Email \<Rightarrow> RoutingDecision" where
  "decide L R email =
     (let ed = to_dict email in
      case check_rules L (rules R) ed of
        Some d \<Rightarrow> d
      | None \<Rightarrow>
          (case analyzer R of
             Some analyze \<Rightarrow>
               if default_action R = u ''analyze'' \<or> default_action R = u ''ai_route''
               then (let ai = analyze ed in
                     \<lparr>rd_forward_to = ar_forward_to ai, rd_matched_rule = None,
                      rd_ai_result = Some ai,
                      rd_should_forward =
                        (ar_forward_to ai \<noteq> []
                         \<and> pf_ge (ar_confidence ai) auto_forward_threshold_decide),
                      rd_additional_destinations = ar_additional_destinations ai\<rparr>)
               else \<lparr>rd_forward_to = [], rd_matched_rule = None, rd_ai_result = None,
                     rd_should_forward = False, rd_additional_destinations = []\<rparr>
           | None \<Rightarrow>
               \<lparr>rd_forward_to = [], rd_matched_rule = None, rd_ai_result = None,
                rd_should_forward = False, rd_additional_destinations = []\<rparr>))"

section \<open>The local-model analyzer (\<open>analyzer/ollama.py\<close>)\<close>

text \<open>An exception is modelled by its message, \<open>str(e)\<close>: a computation that may raise
  returns \<open>Inl\<close> of the message or \<open>Inr\<close> of its value.\<close>

type_synonym 'a raises = "ustr + 'a"

text \<open>\<open>re.search(r"\{[\s\S]*\}", s)\<close>: the region from the first opening brace to the
  last closing brace after it.\<close>

definition find_json_region :: "ustr \<Rightarrow> ustr option" where
  "find_json_region s =
     (let t = dropWhile (\<lambda>c. c \<noteq> 123) s;
          r = rev (dropWhile (\<lambda>c. c \<noteq> 125) (rev t))
      in if r = [] then None else Some r)"

text \<open>\<open>re.sub(r",\s*([}\]])", r"\1", s)\<close>: a comma, followed by any whitespace and
  then a closing brace or bracket, is dropped together with the whitespace.\<close>

function drop_trailing_commas :: "ustr \<Rightarrow> ustr" where
  "drop_trailing_commas [] = []"
| "drop_trailing_commas (c # cs) =
     (if c = 44
      then (case dropWhile isspace cs of
              [] \<Rightarrow> c # drop_trailing_commas cs
            | d # ds \<Rightarrow>
                if d = 125 \<or> d = 93 then d # drop_trailing_commas ds
                else c # drop_trailing_commas cs)
      else c # drop_trailing_commas cs)"
  by pat_completeness auto
termination
proof (relation "measure length")
  show "wf (measure length)" by simp
next
  fix c :: nat and cs d ds
  assume "dropWhile isspace cs = d # ds"
  then have "length (d # ds) \<le> length cs"
    by (metis length_dropWhile_le)
  then show "(ds, c # cs) \<in> measure length" by simp
qed simp_all

definition replace_smart_quotes :: "ustr \<Rightarrow> ustr" where
  "replace_smart_quotes s =
     map (\<lambda>c. if c = 8220 \<or> c = 8221 then 34 else if c = 8217 then 39 else c) s"

definition sanitize_common_json_issues :: "ustr \<Rightarrow> ustr" where
  "sanitize_common_json_issues s =
     drop_trailing_commas (replace_smart_quotes (dropWhile (\<lambda>c. c = 65279) s))"

definition extract_json_object :: "pylib \<Rightarrow> ustr \<Rightarrow> json raises" where
  "extract_json_object L text =
     (let s = strip text;
          fast = (if startswith s (u ''{'') \<and> endswith s (u ''}'')
                  then (case json_loads L s of Inr v \<Rightarrow> Some v | Inl e \<Rightarrow> None)
                  else None)
      in case fast of
           Some v \<Rightarrow> Inr v
         | None \<Rightarrow>
             (case find_json_region s of
                None \<Rightarrow> Inl (u ''No JSON found in response'')
              | Some m \<Rightarrow>
                  (case json_loads L (sanitize_common_json_issues (strip m)) of
                     Inr v \<Rightarrow> Inr v
                   | Inl e \<Rightarrow> Inl (u ''Invalid JSON: '' @ e))))"

text \<open>\<open>float(i)\<close> on an \<open>int\<close> raises \<open>OverflowError\<close> when \<open>i\<close> rounds beyond the
  largest double.\<close>

definition float_of_int :: "int \<Rightarrow> pyfloat option" where
  "float_of_int i = (if \<bar>i\<bar> < 2 ^ 1024 - 2 ^ 970 then Some (Fin (real_of_int i)) else None)"

text \<open>The numeric branch of \<open>_normalize_confidence\<close>.\<close>

definition clamp_number :: "pyfloat \<Rightarrow> pyfloat" where
  "clamp_number x0 =
     (let x = (if pf_gt x0 (Fin 1) then pf_div x0 100 else x0)
      in if pf_lt x (Fin 0) then Fin 0 else if pf_gt x (Fin 1) then Fin 1 else x)"

text \<open>The string branch of \<open>_normalize_confidence\<close>, after \<open>float\<close> has parsed the
  text.\<close>

definition clamp_string_number :: "pyfloat \<Rightarrow> pyfloat" where
  "clamp_string_number x0 =
     (let x = (if pf_gt x0 (Fin 1) then pf_div x0 100 else x0)
      in py_max (Fin 0) (py_min (Fin 1) x))"

definition normalize_confidence :: "pylib \<Rightarrow> json \<Rightarrow> pyfloat" where
  "normalize_confidence L val =
     (case val of
        JBool b \<Rightarrow> clamp_number (Fin (if b then 1 else 0))
      | JInt i \<Rightarrow> (case float_of_int i of None \<Rightarrow> Fin 0 | Some x \<Rightarrow> clamp_number x)
      | JFloat x \<Rightarrow> clamp_number x
      | JStr s \<Rightarrow>
          (case float_of_str L (strip s) of
             None \<Rightarrow> Fin 0
           | Some x \<Rightarrow> clamp_string_number x)
      | _ \<Rightarrow> Fin 0)"

definition type_name :: "json \<Rightarrow> ustr" where
  "type_name v =
     (case v of JNull \<Rightarrow> u ''NoneType'' | JBool b \<Rightarrow> u ''bool'' | JInt i \<Rightarrow> u ''int''
      | JFloat x \<Rightarrow> u ''float'' | JStr s \<Rightarrow> u ''str'' | JList xs \<Rightarrow> u ''list''
      | JObj kvs \<Rightarrow> u ''dict'')"

definition apostrophe :: ustr where
  "apostrophe = [39]"

text \<open>The message of the \<open>AttributeError\<close> for a method that a value does not have.\<close>

definition attribute_error :: "json \<Rightarrow> string \<Rightarrow> ustr" where
  "attribute_error v attr =
     apostrophe @ type_name v @ apostrophe @ u '' object has no attribute ''
     @ apostrophe @ u attr @ apostrophe"

text \<open>\<open>data.get(key, default)\<close> on the loaded object.\<close>

definition obj_get :: "(ustr \<times> json) list \<Rightarrow> string \<Rightarrow> json \<Rightarrow> json" where
  "obj_get kvs key dflt = dict_get (map_of kvs) (u key) dflt"

definition warning_sign :: ustr where
  "warning_sign = [9888, 65039]"

definition police_light :: ustr where
  "police_light = [128680]"

text \<open>\<open>a or b\<close> on strings.\<close>

definition or_else :: "ustr \<Rightarrow> ustr \<Rightarrow> ustr" where
  "or_else a b = (if a \<noteq> [] then a else b)"

text \<open>\<open>_parse_response\<close> from the loaded dictionary on.\<close>

definition parse_fields :: "pylib \<Rightarrow> (ustr \<times> json) list \<Rightarrow> AnalysisResult" where
  "parse_fields L data =
     (let category = str_lower L (strip (py_str L (obj_get data ''category'' (JStr (u ''unknown'')))));
          action = str_lower L (strip (py_str L (obj_get data ''action'' (JStr (u ''needs_review'')))));
          forward_to = obj_get data ''forward_to'' JNull;
          reason0 = strip (py_str L (obj_get data ''reason'' (JStr [])));
          risk_flags0 = obj_get data ''risk_flags'' (JList []);
          confidence = normalize_confidence L (obj_get data ''confidence'' (JFloat (Fin 0)));
          risk_flags = (case risk_flags0 of JList xs \<Rightarrow> xs | v \<Rightarrow> [JStr (py_str L v)]);
          reason = (if risk_flags \<noteq> []
                    then strip (warning_sign @ u '' ['' @ join (u '', '') (map (py_str L) risk_flags)
                                @ u ''] '' @ reason0)
                    else reason0);
          forward_to_str =
            (case forward_to of
               JNull \<Rightarrow> []
             | v \<Rightarrow> (let s = strip (py_str L v)
                     in if str_lower L s = u ''null'' then [] else s))
      in if action = u ''spam''
         then \<lparr>ar_forward_to = or_else forward_to_str (u ''spam@mail.local''),
               ar_category = u ''spam'', ar_confidence = confidence,
               ar_reasoning = (if reason \<noteq> [] then strip (police_light @ u '' '' @ reason)
                               else police_light @ u '' Phishing/scam detected''),
               ar_additional_destinations = [], ar_raw_response = []\<rparr>
         else if action = u ''forward'' \<and> forward_to_str \<noteq> []
         then \<lparr>ar_forward_to = forward_to_str, ar_category = category,
               ar_confidence = confidence,
               ar_reasoning = or_else reason (u ''Forwarded by policy''),
               ar_additional_destinations = [], ar_raw_response = []\<rparr>
         else if action = u ''no_forward''
         then \<lparr>ar_forward_to = [], ar_category = category, ar_confidence = confidence,
               ar_reasoning = or_else reason (u ''No forwarding required''),
               ar_additional_destinations = [], ar_raw_response = []\<rparr>
         else if action = u ''needs_review'' \<or> action = u ''needs-review''
         then \<lparr>ar_forward_to = forward_to_str, ar_category = category,
               ar_confidence = confidence,
               ar_reasoning = or_else reason (u ''Needs manual review''),
               ar_additional_destinations = [], ar_raw_response = []\<rparr>
         else \<lparr>ar_forward_to = [], ar_category = u ''review'', ar_confidence = Fin 0,
               ar_reasoning = u ''Unrecognized action '' @ apostrophe @ action @ apostrophe
                              @ u ''. Needs manual review.'',
               ar_additional_destinations = [], ar_raw_response = []\<rparr>)"

definition parse_response :: "pylib \<Rightarrow> ustr \<Rightarrow> AnalysisResult raises" where
  "parse_response L response_text =
     (case extract_json_object L response_text of
        Inl e \<Rightarrow> Inl e
      | Inr (JObj data) \<Rightarrow> Inr (parse_fields L data)
      | Inr v \<Rightarrow> Inl (attribute_error v ''get''))"

text \<open>The truth value of a loaded value, as \<open>v or ""\<close> tests it.\<close>

definition json_truthy :: "json \<Rightarrow> bool" where
  "json_truthy v =
     (case v of JNull \<Rightarrow> False | JBool b \<Rightarrow> b | JInt i \<Rightarrow> i \<noteq> 0
      | JFloat x \<Rightarrow> x \<noteq> Fin 0 | JStr s \<Rightarrow> s \<noteq> [] | JList xs \<Rightarrow> xs \<noteq> []
      | JObj kvs \<Rightarrow> kvs \<noteq> [])"

text \<open>\<open>(result.get(key) or "").strip()\<close>.\<close>

definition stripped_field :: "json \<Rightarrow> string \<Rightarrow> ustr raises" where
  "stripped_field result key =
     (case result of
        JObj kvs \<Rightarrow>
          (let v = obj_get kvs key JNull
           in if \<not> json_truthy v then Inr []
              else (case v of JStr s \<Rightarrow> Inr (strip s) | _ \<Rightarrow> Inl (attribute_error v ''strip'')))
      | v \<Rightarrow> Inl (attribute_error v ''get''))"

record OllamaAnalyzer =
  max_retries :: int
  debug_accept_thinking_field :: bool

text \<open>\<open>(d.get(k) or "")\<close> on the message dictionary.\<close>

definition get_or_empty :: "email_data \<Rightarrow> string \<Rightarrow> ustr" where
  "get_or_empty ed k = dict_get ed k []"

definition user_prompt :: "email_data \<Rightarrow> ustr" where
  "user_prompt ed =
     (let subject = strip (get_or_empty ed ''subject'');
          body = strip (get_or_empty ed ''body'');
          from_addr = strip (or_else (get_or_empty ed ''from'')
                               (or_else (get_or_empty ed ''from_addr'') (u ''Unknown'')))
      in u ''Classify this email. Output ONLY the JSON object.'' @ [10, 10]
         @ u ''From: '' @ from_addr @ [10]
         @ u ''Subject: '' @ subject @ [10]
         @ u ''Body:'' @ [10] @ take 1200 body)"

text \<open>
  One pass through the body of the retry loop. The backend call \<open>_call_ollama\<close> is a
  parameter: what the HTTP request of this attempt yields, an exception or the decoded
  response. The first component of the result is the text that the pass stored in
  \<open>last_raw\<close>, if it got that far.
\<close>

definition attempt_once ::
  "pylib \<Rightarrow> OllamaAnalyzer \<Rightarrow> json raises \<Rightarrow> ustr option \<times> AnalysisResult raises" where
  "attempt_once L self call =
     (case call of
        Inl e \<Rightarrow> (None, Inl e)
      | Inr result \<Rightarrow>
          (case stripped_field result ''response'' of
             Inl e \<Rightarrow> (None, Inl e)
           | Inr raw0 \<Rightarrow>
               (let second = (if raw0 = [] \<and> debug_accept_thinking_field self
                              then stripped_field result ''thinking'' else Inr raw0)
                in case second of
                     Inl e \<Rightarrow> (Some raw0, Inl e)
                   | Inr raw \<Rightarrow>
                       if raw = [] then (Some raw, Inl (u ''Empty LLM output (response was blank)''))
                       else (case parse_response L raw of
                               Inl e \<Rightarrow> (Some raw, Inl e)
                             | Inr parsed \<Rightarrow> (Some raw, Inr (parsed\<lparr>ar_raw_response := raw\<rparr>))))))"

definition failure_result :: "ustr option \<Rightarrow> ustr \<Rightarrow> AnalysisResult" where
  "failure_result last_err last_raw =
     \<lparr>ar_forward_to = [], ar_category = u ''review'', ar_confidence = Fin 0,
      ar_reasoning = u ''LLM/parse error after retries: ''
                     @ (case last_err of None \<Rightarrow> u ''None'' | Some e \<Rightarrow> e),
      ar_additional_destinations = [], ar_raw_response = last_raw\<rparr>"

text \<open>The retry loop \<open>for attempt in range(self.max_retries + 1)\<close>; the sleep between two
  attempts has no effect on the value and is left out.\<close>

fun run_attempts ::
  "(nat \<Rightarrow> ustr option \<times> AnalysisResult raises) \<Rightarrow> nat list \<Rightarrow> ustr option \<Rightarrow> ustr
     \<Rightarrow> AnalysisResult" where
  "run_attempts att [] last_err last_raw = failure_result last_err last_raw"
| "run_attempts att (i # rest) last_err last_raw =
     (case att i of
        (seen, Inr parsed) \<Rightarrow> parsed
      | (seen, Inl e) \<Rightarrow>
          run_attempts att rest (Some e) (case seen of None \<Rightarrow> last_raw | Some r \<Rightarrow> r))"

definition ollama_analyze ::
  "pylib \<Rightarrow> OllamaAnalyzer \<Rightarrow> (nat \<Rightarrow> ustr \<Rightarrow> json raises) \<Rightarrow> email_data \<Rightarrow> AnalysisResult" where
  "ollama_analyze L self call_ollama ed =
     run_attempts (\<lambda>attempt. attempt_once L self (call_ollama attempt (user_prompt ed)))
       [0 ..< nat (max_retries self + 1)] None []"

section \<open>The hosted-model analyzer (\<open>analyzer/gemini.py\<close>)\<close>

text \<open>\<open>s.split(sep)\<close> for a separator of one character.\<close>

fun split_on :: "nat \<Rightarrow> ustr \<Rightarrow> ustr list" where
  "split_on sep [] = [[]]"
| "split_on sep (c # cs) =
     (if c = sep then [] # split_on sep cs
      else (case split_on sep cs of [] \<Rightarrow> [[c]] | l # ls \<Rightarrow> (c # l) # ls))"

text \<open>\<open>line.split(":", 1)[1].strip()\<close>, used on lines that contain a colon.\<close>

definition after_colon :: "ustr \<Rightarrow> ustr" where
  "after_colon line = strip (drop 1 (dropWhile (\<lambda>c. c \<noteq> 58) line))"

record gemini_fields =
  gf_forward_to :: ustr
  gf_category :: ustr
  gf_confidence :: pyfloat
  gf_reasoning :: ustr

definition gemini_line :: "pylib \<Rightarrow> gemini_fields \<Rightarrow> ustr \<Rightarrow> gemini_fields" where
  "gemini_line L st line0 =
     (let line = strip line0
      in if startswith line (u ''FORWARD_TO:'') then st\<lparr>gf_forward_to := after_colon line\<rparr>
         else if startswith line (u ''CATEGORY:'')
         then st\<lparr>gf_category := str_lower L (after_colon line)\<rparr>
         else if startswith line (u ''CONFIDENCE:'')
         then st\<lparr>gf_confidence :=
                   (case float_of_str L (after_colon line) of
                      Some x \<Rightarrow> x | None \<Rightarrow> Fin (1 / 2))\<rparr>
         else if startswith line (u ''REASONING:'') then st\<lparr>gf_reasoning := after_colon line\<rparr>
         else st)"

definition gemini_parse_response :: "pylib \<Rightarrow> ustr \<Rightarrow> AnalysisResult" where
  "gemini_parse_response L response =
     (let st = foldl (gemini_line L)
                 \<lparr>gf_forward_to = [], gf_category = u ''unknown'',
                  gf_confidence = Fin (1 / 2), gf_reasoning = []\<rparr>
                 (split_on 10 (strip response))
      in \<lparr>ar_forward_to = gf_forward_to st, ar_category = gf_category st,
          ar_confidence = gf_confidence st, ar_reasoning = gf_reasoning st,
          ar_additional_destinations = [], ar_raw_response = []\<rparr>)"

text \<open>\<open>GeminiAnalyzer.analyze\<close>. The call of the hosted model is a parameter: it
  yields an exception or the text of the response for the message.\<close>

definition gemini_analyze ::
  "pylib \<Rightarrow> (ustr \<times> ustr) list \<Rightarrow> (email_data \<Rightarrow> ustr raises) \<Rightarrow> email_data \<Rightarrow> AnalysisResult" where
  "gemini_analyze L destinations generate_content ed =
     (if destinations = []
      then \<lparr>ar_forward_to = [], ar_category = u ''unknown'', ar_confidence = Fin 0,
            ar_reasoning = u ''No destinations configured for AI routing'',
            ar_additional_destinations = [], ar_raw_response = []\<rparr>
      else (case generate_content ed of
              Inr text \<Rightarrow> gemini_parse_response L text
            | Inl e \<Rightarrow>
                \<lparr>ar_forward_to = [], ar_category = u ''error'', ar_confidence = Fin 0,
                 ar_reasoning = u ''AI analysis failed: '' @ e,
                 ar_additional_destinations = [], ar_raw_response = []\<rparr>))"

section \<open>The processing loop and the operator actions (\<open>web_dashboard.py\<close>)\<close>

record EmailStatus =
  es_uid :: int
  es_from_addr :: ustr
  es_subject :: ustr
  es_body :: ustr
  es_status :: string
  es_forward_to :: "ustr list"
  es_category :: ustr
  es_confidence :: pyfloat
  es_reasoning :: ustr
  es_needs_review :: bool

text \<open>An entry of \<open>pending_reviews\<close>: the message and the decision taken for it, if any.\<close>

record pending_review =
  pr_email :: Email
  pr_decision :: "RoutingDecision option"

text \<open>The calls made to the mail store and to the outbound transport, in order.\<close>

datatype event =
    FetchFolder string
  | FetchUnread
  | MoveEmail int string string
  | ForwardEmail int ustr

text \<open>
  The state the dashboard works on: its two globals \<open>emails_data\<close> and
  \<open>pending_reviews\<close>, the folders of the mail store, the copies the transport has
  delivered (message and destination), the two logs of \<open>email_logger.py\<close>, and the
  trace of calls. A message keeps its \<open>uid\<close> when it moves to another folder, and
  the inbox holds the unread messages.
\<close>

record world =
  emails_data :: "EmailStatus list"
  pending_reviews :: "int \<rightharpoonup> pending_review"
  folders :: "string \<Rightarrow> Email list"
  outbox :: "(int \<times> ustr) list"
  email_log :: "(int \<times> string \<times> ustr list) list"
  action_log :: "(int \<times> string \<times> ustr list) list"
  trace :: "event list"

text \<open>What the collaborators do during one call of the dashboard: whether connecting
  to the mail store raises, and which forwards and which moves raise.\<close>

record env =
  connect_fails :: bool
  forward_fails :: "int \<Rightarrow> ustr \<Rightarrow> bool"
  move_fails :: "int \<Rightarrow> string \<Rightarrow> string \<Rightarrow> bool"

text \<open>\<open>smtp.forward_email(email, dest)\<close>; the second component tells whether it raised.\<close>

definition forward_email :: "env \<Rightarrow> Email \<Rightarrow> ustr \<Rightarrow> world \<Rightarrow> world \<times> bool" where
  "forward_email E email dest w =
     (let w1 = w\<lparr>trace := trace w @ [ForwardEmail (em_uid email) dest]\<rparr>
      in if forward_fails E (em_uid email) dest then (w1, True)
         else (w1\<lparr>outbox := outbox w1 @ [(em_uid email, dest)]\<rparr>, False))"

text \<open>\<open>for dest in destinations: smtp.forward_email(email, dest)\<close>: the first forward
  that raises ends the loop.\<close>

fun forward_all :: "env \<Rightarrow> Email \<Rightarrow> ustr list \<Rightarrow> world \<Rightarrow> world \<times> bool" where
  "forward_all E email [] w = (w, False)"
| "forward_all E email (dest # rest) w =
     (case forward_email E email dest w of
        (w1, True) \<Rightarrow> (w1, True)
      | (w1, False) \<Rightarrow> forward_all E email rest w1)"

text \<open>\<open>imap.move_email(uid, folder, source_folder)\<close>.\<close>

definition move_email :: "env \<Rightarrow> int \<Rightarrow> string \<Rightarrow> string \<Rightarrow> world \<Rightarrow> world \<times> bool" where
  "move_email E uid folder source_folder w =
     (let w1 = w\<lparr>trace := trace w @ [MoveEmail uid folder source_folder]\<rparr>
      in if move_fails E uid folder source_folder then (w1, True)
         else (let moved = filter (\<lambda>e. em_uid e = uid) (folders w1 source_folder);
                   f1 = (folders w1)(source_folder :=
                          filter (\<lambda>e. em_uid e \<noteq> uid) (folders w1 source_folder))
               in (w1\<lparr>folders := f1(folder := f1 folder @ moved)\<rparr>, False)))"

text \<open>The first record of a list with the given \<open>uid\<close> is changed:
  \<open>for e in emails_data: if e.uid == uid: ...; break\<close>, and
  \<open>emails_data[email_idx]\<close> for the index of the first record with that \<open>uid\<close>.\<close>

fun update_first :: "int \<Rightarrow> (EmailStatus \<Rightarrow> EmailStatus) \<Rightarrow> EmailStatus list \<Rightarrow> EmailStatus list" where
  "update_first uid f [] = []"
| "update_first uid f (e # es) =
     (if es_uid e = uid then f e # es else e # update_first uid f es)"

definition set_record :: "int \<Rightarrow> (EmailStatus \<Rightarrow> EmailStatus) \<Rightarrow> world \<Rightarrow> world" where
  "set_record uid f w = w\<lparr>emails_data := update_first uid f (emails_data w)\<rparr>"

definition new_status :: "Email \<Rightarrow> string \<Rightarrow> bool \<Rightarrow> EmailStatus" where
  "new_status e st review =
     \<lparr>es_uid = em_uid e, es_from_addr = em_from_addr e, es_subject = em_subject e,
      es_body = em_body e, es_status = st, es_forward_to = [], es_category = [],
      es_confidence = Fin 0, es_reasoning = [], es_needs_review = review\<rparr>"

text \<open>The loop over the messages of the Review folder at the start of
  \<open>process_emails\<close>; \<open>existing_uids\<close> is the set the source keeps beside the list.\<close>

fun rehydrate :: "Email list \<Rightarrow> int set \<Rightarrow> world \<Rightarrow> int set \<times> world" where
  "rehydrate [] existing_uids w = (existing_uids, w)"
| "rehydrate (e # rest) existing_uids w =
     (let (ex1, w1) =
            (if em_uid e \<notin> existing_uids
             then (insert (em_uid e) existing_uids,
                   w\<lparr>emails_data := emails_data w @ [new_status e ''Review'' True]\<rparr>)
             else (existing_uids, w));
          w2 = (if pending_reviews w1 (em_uid e) = None
                then w1\<lparr>pending_reviews :=
                          (pending_reviews w1)(em_uid e \<mapsto> \<lparr>pr_email = e, pr_decision = None\<rparr>)\<rparr>
                else w1)
      in rehydrate rest ex1 w2)"

definition auto_forward_threshold_dashboard :: pyfloat where
  "auto_forward_threshold_dashboard = Fin (8 / 10)"

text \<open>The test that opens the auto-forward branch of the loop.\<close>

definition auto_approve :: "RoutingDecision \<Rightarrow> bool" where
  "auto_approve decision =
     (case rd_ai_result decision of
        None \<Rightarrow> False
      | Some ai \<Rightarrow> pf_gt (ar_confidence ai) auto_forward_threshold_dashboard
                    \<and> rd_should_forward decision)"

text \<open>The auto-forward branch, for a decision that carries the analysis \<open>ai\<close>. An
  exception inside it is caught there and leaves the record in \<open>Error\<close>.\<close>

definition auto_forward :: "env \<Rightarrow> Email \<Rightarrow> RoutingDecision \<Rightarrow> AnalysisResult \<Rightarrow> world \<Rightarrow> world" where
  "auto_forward E email decision ai w =
     (let is_quarantine = (ar_category ai = u ''quarantine'');
          dests = all_destinations decision;
          uid = em_uid email
      in case forward_all E email dests w of
           (w1, True) \<Rightarrow> set_record uid (\<lambda>r. r\<lparr>es_status := ''Error''\<rparr>) w1
         | (w1, False) \<Rightarrow>
             (case move_email E uid (if is_quarantine then ''Quarantine'' else ''Processed'')
                     ''INBOX'' w1 of
                (w2, True) \<Rightarrow> set_record uid (\<lambda>r. r\<lparr>es_status := ''Error''\<rparr>) w2
              | (w2, False) \<Rightarrow>
                  (let w3 = set_record uid
                              (\<lambda>r. r\<lparr>es_status := (if is_quarantine then ''Quarantined''
                                                    else ''Forwarded''),
                                     es_forward_to := dests\<rparr>) w2
                   in w3\<lparr>email_log := email_log w3 @
                           [(uid, if is_quarantine then ''quarantined'' else ''forwarded'',
                             dests)]\<rparr>)))"

text \<open>The review branch. The move to the Review folder is not guarded: when it raises,
  the exception leaves the loop (second component).\<close>

definition park_for_review :: "env \<Rightarrow> Email \<Rightarrow> RoutingDecision \<Rightarrow> world \<Rightarrow> world \<times> bool" where
  "park_for_review E email decision w =
     (let uid = em_uid email;
          w1 = set_record uid
                 (\<lambda>r. r\<lparr>es_status := ''Review'', es_needs_review := True,
                        es_forward_to := (if rd_should_forward decision
                                          then all_destinations decision else [])\<rparr>) w
      in case move_email E uid ''Review'' ''INBOX'' w1 of
           (w2, True) \<Rightarrow> (w2, True)
         | (w2, False) \<Rightarrow>
             (w2\<lparr>pending_reviews :=
                   (pending_reviews w2)(uid \<mapsto> \<lparr>pr_email = email, pr_decision = Some decision\<rparr>)\<rparr>,
              False))"

text \<open>The body of the loop over the new messages.\<close>

definition process_one :: "pylib \<Rightarrow> env \<Rightarrow> Router \<Rightarrow> Email \<Rightarrow> world \<Rightarrow> world \<times> bool" where
  "process_one L E router email w =
     (let uid = em_uid email;
          w1 = set_record uid (\<lambda>r. r\<lparr>es_status := ''Processing''\<rparr>) w;
          decision = decide L router email;
          w2 = (case rd_ai_result decision of
                  None \<Rightarrow> w1
                | Some ai \<Rightarrow>
                    set_record uid
                      (\<lambda>r. r\<lparr>es_category := ar_category ai, es_confidence := ar_confidence ai,
                             es_reasoning := ar_reasoning ai\<rparr>) w1)
      in case rd_ai_result decision of
           None \<Rightarrow> park_for_review E email decision w2
         | Some ai \<Rightarrow>
             if auto_approve decision then (auto_forward E email decision ai w2, False)
             else park_for_review E email decision w2)"

fun process_loop :: "pylib \<Rightarrow> env \<Rightarrow> Router \<Rightarrow> Email list \<Rightarrow> world \<Rightarrow> world" where
  "process_loop L E router [] w = w"
| "process_loop L E router (email # rest) w =
     (case process_one L E router email w of
        (w1, True) \<Rightarrow> w1
      | (w1, False) \<Rightarrow> process_loop L E router rest w1)"

text \<open>The part of \<open>process_emails\<close> that follows the scan of the Review folder: the
  unread messages are fetched, those not yet tracked are recorded as \<open>Pending\<close> and
  processed one by one.\<close>

definition process_unread :: "pylib \<Rightarrow> env \<Rightarrow> Router \<Rightarrow> int set \<Rightarrow> world \<Rightarrow> world" where
  "process_unread L E router existing_uids w =
     (let w1 = w\<lparr>trace := trace w @ [FetchUnread]\<rparr>;
          emails = folders w1 ''INBOX'';
          new_emails = filter (\<lambda>e. em_uid e \<notin> existing_uids) emails
      in if emails = [] \<or> new_emails = [] then w1
         else process_loop L E router new_emails
                (w1\<lparr>emails_data := emails_data w1 @ map (\<lambda>e. new_status e ''Pending'' False) new_emails\<rparr>))"

text \<open>The start of \<open>process_emails\<close>: the Review folder is fetched and its messages
  are taken up again.\<close>

definition scan_review_folder :: "world \<Rightarrow> int set \<times> world" where
  "scan_review_folder w =
     (let w1 = w\<lparr>trace := trace w @ [FetchFolder ''Review'']\<rparr>;
          review_emails = folders w1 ''Review''
      in rehydrate review_emails (set (map es_uid (emails_data w1))) w1)"

text \<open>\<open>process_emails\<close>. An exception anywhere inside it ends the cycle; when
  connecting to the mail store raises, nothing has been done yet.\<close>

definition process_emails :: "pylib \<Rightarrow> env \<Rightarrow> Router \<Rightarrow> world \<Rightarrow> world" where
  "process_emails L E router w =
     (if connect_fails E then w
      else (let (existing_uids, w2) = scan_review_folder w
            in process_unread L E router existing_uids w2))"

text \<open>\<open>approve_email\<close>. The argument is the \<open>uid\<close> of the request after \<open>int(uid)\<close>,
  or \<open>None\<close> when that conversion raises.\<close>

definition approve_destinations :: "int \<Rightarrow> RoutingDecision option \<Rightarrow> world \<Rightarrow> ustr list" where
  "approve_destinations uid decision w =
     (let d0 = (case decision of
                  None \<Rightarrow> []
                | Some d \<Rightarrow> if rd_should_forward d then all_destinations d else [])
      in if d0 \<noteq> [] then d0
         else (case find (\<lambda>e. es_uid e = uid \<and> es_forward_to e \<noteq> []) (emails_data w) of
                 None \<Rightarrow> []
               | Some e \<Rightarrow> es_forward_to e))"

definition approve_finish :: "int \<Rightarrow> ustr list \<Rightarrow> world \<Rightarrow> world" where
  "approve_finish uid destinations w =
     (let w1 = set_record uid
                 (\<lambda>r. r\<lparr>es_status := ''Forwarded'', es_needs_review := False,
                        es_forward_to := destinations\<rparr>) w
      in w1\<lparr>action_log := action_log w1 @ [(uid, ''approved'', destinations)],
            pending_reviews := (pending_reviews w1)(uid := None)\<rparr>)"

definition approve_email :: "env \<Rightarrow> int option \<Rightarrow> world \<Rightarrow> world" where
  "approve_email E data_uid w =
     (case data_uid of
        None \<Rightarrow> w
      | Some uid \<Rightarrow>
          (case pending_reviews w uid of
             None \<Rightarrow> w
           | Some review \<Rightarrow>
               (let email = pr_email review;
                    destinations = approve_destinations uid (pr_decision review) w
                in if destinations \<noteq> []
                   then (case forward_all E email destinations w of
                           (w1, True) \<Rightarrow> w1
                         | (w1, False) \<Rightarrow>
                             if connect_fails E then w1
                             else (case move_email E uid ''Processed'' ''Review'' w1 of
                                     (w2, True) \<Rightarrow> w2
                                   | (w2, False) \<Rightarrow> approve_finish uid destinations w2))
                   else approve_finish uid destinations w)))"

text \<open>\<open>reject_email\<close>. Whatever goes wrong while the message is moved to the Skipped
  folder is caught and reported as a warning.\<close>

definition reject_email :: "env \<Rightarrow> int option \<Rightarrow> world \<Rightarrow> world" where
  "reject_email E data_uid w =
     (case data_uid of
        None \<Rightarrow> w
      | Some uid \<Rightarrow>
          (case pending_reviews w uid of
             None \<Rightarrow> w
           | Some review \<Rightarrow>
               (let w1 = (if connect_fails E then w
                          else fst (move_email E uid ''Skipped'' ''Review'' w));
                    w2 = set_record uid
                           (\<lambda>r. r\<lparr>es_status := ''Skipped'', es_needs_review := False\<rparr>) w1
                in w2\<lparr>action_log := action_log w2 @ [(uid, ''rejected'', [])],
                      pending_reviews := (pending_reviews w2)(uid := None)\<rparr>)))"

section \<open>A concrete runtime and concrete responses for the examples\<close>

text \<open>\<open>str.lower\<close> on ASCII text.\<close>

definition ascii_lower :: "ustr \<Rightarrow> ustr" where
  "ascii_lower s = map (\<lambda>c. if 65 \<le> c \<and> c \<le> 90 then c + 32 else c) s"

text \<open>\<open>float\<close> on plain decimal notation (an optional sign, digits, an optional
  fraction) and on \<open>nan\<close>; every other text is refused.\<close>

definition is_digit :: "nat \<Rightarrow> bool" where
  "is_digit c = (48 \<le> c \<and> c \<le> 57)"

definition digits_value :: "ustr \<Rightarrow> nat" where
  "digits_value ds = foldl (\<lambda>a c. 10 * a + (c - 48)) 0 ds"

definition decimal_unsigned :: "ustr \<Rightarrow> real option" where
  "decimal_unsigned s =
     (let ip = takeWhile is_digit s; rest = dropWhile is_digit s
      in if ip = [] then None
         else if rest = [] then Some (real (digits_value ip))
         else if hd rest = 46 \<and> tl rest \<noteq> [] \<and> list_all is_digit (tl rest)
         then Some (real (digits_value ip)
                    + real (digits_value (tl rest)) / 10 ^ length (tl rest))
         else None)"

definition decimal_float :: "ustr \<Rightarrow> pyfloat option" where
  "decimal_float s0 =
     (let s = strip s0
      in if ascii_lower s = u ''nan'' then Some NaN
         else (case s of
                 [] \<Rightarrow> None
               | c # cs \<Rightarrow>
                   if c = 45 then map_option (\<lambda>x. Fin (- x)) (decimal_unsigned cs)
                   else if c = 43 then map_option Fin (decimal_unsigned cs)
                   else map_option Fin (decimal_unsigned s)))"

text \<open>The two responses of the specification's scenarios, and what \<open>json.loads\<close>
  returns for them.\<close>

definition spam_response :: ustr where
  \<open>spam_response = u ''{"category":"spam","action":"spam","forward_to":null,"confidence":0.97,"risk_flags":["phishing_link"],"reason":"credential theft attempt"}''\<close>

definition spam_object :: json where
  "spam_object =
     JObj [(u ''category'', JStr (u ''spam'')), (u ''action'', JStr (u ''spam'')),
           (u ''forward_to'', JNull), (u ''confidence'', JFloat (Fin (97 / 100))),
           (u ''risk_flags'', JList [JStr (u ''phishing_link'')]),
           (u ''reason'', JStr (u ''credential theft attempt''))]"

definition vendors_response :: ustr where
  \<open>vendors_response = u ''{"category":"vendors","action":"needs_review","forward_to":"vendors@mail.local","confidence":0.55,"risk_flags":["wire_transfer"],"reason":"bank change request"}''\<close>

definition vendors_object :: json where
  "vendors_object =
     JObj [(u ''category'', JStr (u ''vendors'')), (u ''action'', JStr (u ''needs_review'')),
           (u ''forward_to'', JStr (u ''vendors@mail.local'')),
           (u ''confidence'', JFloat (Fin (55 / 100))),
           (u ''risk_flags'', JList [JStr (u ''wire_transfer'')]),
           (u ''reason'', JStr (u ''bank change request''))]"

text \<open>An object whose only value is a string that ends in a comma and a closing
  brace, the text the sanitizer makes of it, and an object with a NaN confidence.\<close>

definition comma_response :: ustr where
  \<open>comma_response = u ''{"a":",}"}''\<close>

definition comma_sanitized :: ustr where
  \<open>comma_sanitized = u ''{"a":"}"}''\<close>

definition nan_response :: ustr where
  \<open>nan_response = u ''{"confidence": NaN}''\<close>

definition sample_loads :: "ustr \<Rightarrow> ustr + json" where
  "sample_loads s =
     (if s = spam_response then Inr spam_object
      else if s = vendors_response then Inr vendors_object
      else if s = comma_response then Inr (JObj [(u ''a'', JStr (u '',}''))])
      else if s = comma_sanitized then Inr (JObj [(u ''a'', JStr (u ''}''))])
      else if s = nan_response then Inr (JObj [(u ''confidence'', JFloat NaN)])
      else Inl (u ''Expecting value: line 1 column 1 (char 0)''))"

definition sample_str :: "json \<Rightarrow> ustr" where
  "sample_str v =
     (case v of JNull \<Rightarrow> u ''None'' | JBool b \<Rightarrow> (if b then u ''True'' else u ''False'')
      | _ \<Rightarrow> [])"

definition sample_lib :: pylib where
  "sample_lib = \<lparr>str_lower = ascii_lower, json_loads = sample_loads,
     float_of_str = decimal_float, str_of_value = sample_str\<rparr>"

section \<open>The rule matcher in words\<close>

definition occurs_in :: "ustr \<Rightarrow> ustr \<Rightarrow> bool" where
  "occurs_in needle hay = (\<exists>pre suf. hay = pre @ needle @ suf)"

text \<open>
  The rule matcher in the words of the amended claim. A predicate is declared when its
  field is present and not empty; a rule holds for a message when every predicate it
  declares holds. The sender predicate: the configured pattern without its stars, in
  lower case, occurs in the lower-cased sender. The subject predicate: some keyword, in
  lower case, occurs in the lower-cased subject. The combined predicate: some keyword,
  in lower case, occurs in the lower-cased subject, one space and the lower-cased body.
\<close>

definition amended_rule_holds :: "pylib \<Rightarrow> Rule \<Rightarrow> email_data \<Rightarrow> bool" where
  "amended_rule_holds L r ed =
     ((\<forall>p. rule_match_from r = Some p \<and> p \<noteq> [] \<longrightarrow>
          occurs_in (str_lower L (filter (\<lambda>c. c \<noteq> star) p))
            (str_lower L (dict_get ed ''from'' [])))
      \<and> (\<forall>kws. rule_match_subject r = Some kws \<and> kws \<noteq> [] \<longrightarrow>
          (\<exists>kw \<in> set kws. occurs_in (str_lower L kw) (str_lower L (dict_get ed ''subject'' []))))
      \<and> (\<forall>kws. rule_match_keywords r = Some kws \<and> kws \<noteq> [] \<longrightarrow>
          (\<exists>kw \<in> set kws. occurs_in (str_lower L kw)
             (str_lower L (dict_get ed ''subject'' []) @ u '' ''
              @ str_lower L (dict_get ed ''body'' [])))))"

text \<open>The same in the words of the claim as it was made: the sender pattern is taken as
  it is configured, and the keywords of the combined predicate are looked for in the
  subject concatenated with the body.\<close>

definition claimed_rule_holds :: "pylib \<Rightarrow> Rule \<Rightarrow> email_data \<Rightarrow> bool" where
  "claimed_rule_holds L r ed =
     ((\<forall>p. rule_match_from r = Some p \<and> p \<noteq> [] \<longrightarrow>
          occurs_in (str_lower L p) (str_lower L (dict_get ed ''from'' [])))
      \<and> (\<forall>kws. rule_match_subject r = Some kws \<and> kws \<noteq> [] \<longrightarrow>
          (\<exists>kw \<in> set kws. occurs_in (str_lower L kw) (str_lower L (dict_get ed ''subject'' []))))
      \<and> (\<forall>kws. rule_match_keywords r = Some kws \<and> kws \<noteq> [] \<longrightarrow>
          (\<exists>kw \<in> set kws. occurs_in (str_lower L kw)
             (str_lower L (dict_get ed ''subject'' [] @ dict_get ed ''body'' [])))))"

definition declares_nothing :: "Rule \<Rightarrow> bool" where
  "declares_nothing r =
     ((rule_match_from r = None \<or> rule_match_from r = Some [])
      \<and> (rule_match_subject r = None \<or> rule_match_subject r = Some [])
      \<and> (rule_match_keywords r = None \<or> rule_match_keywords r = Some []))"

text \<open>The decision that \<open>Router.decide\<close> returns for a rule that matched.\<close>

definition rule_decision :: "Rule \<Rightarrow> RoutingDecision" where
  "rule_decision r =
     \<lparr>rd_forward_to = rule_forward_to r, rd_matched_rule = Some (rule_name r),
      rd_ai_result = None, rd_should_forward = (rule_forward_to r \<noteq> []),
      rd_additional_destinations = []\<rparr>"

section \<open>Concrete rules and messages\<close>

definition vip_rule :: Rule where
  "vip_rule = \<lparr>rule_name = u ''VIP'', rule_match_from = Some (u ''boss@company.com''),
     rule_match_subject = None, rule_match_keywords = None,
     rule_forward_to = u ''ceo-inbox@mail.local''\<rparr>"

definition invoice_rule :: Rule where
  "invoice_rule = \<lparr>rule_name = u ''Invoices'', rule_match_from = None,
     rule_match_subject = Some [u ''invoice'', u ''payment''], rule_match_keywords = None,
     rule_forward_to = u ''vendors@mail.local''\<rparr>"

definition catch_all_rule :: Rule where
  "catch_all_rule = \<lparr>rule_name = u ''Everything'', rule_match_from = None,
     rule_match_subject = Some [], rule_match_keywords = None,
     rule_forward_to = u ''company@mail.local''\<rparr>"

definition boss_email :: Email where
  "boss_email = \<lparr>em_uid = 7, em_from_addr = u ''Boss <BOSS@company.com>'', em_to_addr = u ''company@mail.local'',
     em_subject = u ''Urgent: Q4 Report'', em_body = u ''Please review.'', em_date = []\<rparr>"

definition rules_router :: Router where
  "rules_router = \<lparr>rules = [invoice_rule, vip_rule, catch_all_rule], default_action = u ''analyze'',
     analyzer = None\<rparr>"

definition ab_rule :: Rule where
  "ab_rule = \<lparr>rule_name = u ''AB'', rule_match_from = Some (u ''a*b''),
     rule_match_subject = None, rule_match_keywords = None,
     rule_forward_to = u ''ab@mail.local''\<rparr>"

definition company_rule :: Rule where
  "company_rule = \<lparr>rule_name = u ''Company'', rule_match_from = Some (u ''*@company.com''),
     rule_match_subject = None, rule_match_keywords = None,
     rule_forward_to = u ''company@mail.local''\<rparr>"

text \<open>An analyzer with two retries and a backend that fails in a different way at
  each of the three attempts.\<close>

definition retrying_analyzer :: OllamaAnalyzer where
  "retrying_analyzer = \<lparr>max_retries = 2, debug_accept_thinking_field = False\<rparr>"

definition failing_backend :: "nat \<Rightarrow> ustr \<Rightarrow> json raises" where
  "failing_backend attempt prompt =
     (if attempt = 0 then Inl (u ''Connection refused'')
      else if attempt = 1 then Inr (JObj [(u ''response'', JStr (u ''   ''))])
      else Inr (JObj [(u ''response'', JStr (u ''I cannot classify this.''))]))"

text \<open>A response of the hosted model with a confidence above one, the destinations
  of its analyzer, and a local backend that answers with the NaN object.\<close>

definition gemini_response :: ustr where
  "gemini_response = u ''FORWARD_TO: sales@mail.local'' @ [10] @ u ''CATEGORY: Sales'' @ [10]
     @ u ''CONFIDENCE: 1.5'' @ [10] @ u ''REASONING: wants a quote''"

definition sales_destinations :: "(ustr \<times> ustr) list" where
  "sales_destinations = [(u ''sales@mail.local'', u ''Sales inquiries'')]"

definition nan_backend :: "nat \<Rightarrow> ustr \<Rightarrow> json raises" where
  "nan_backend attempt prompt = Inr (JObj [(u ''response'', JStr nan_response)])"

text \<open>The messages, backends, routers and states of the scenarios.\<close>

definition spam_email :: Email where
  "spam_email = \<lparr>em_uid = 11, em_from_addr = u ''security@paypa1-verify.example'',
     em_to_addr = u ''company@mail.local'', em_subject = u ''Verify your account now'',
     em_body = u ''Your password expires today. Sign in at http://paypa1-verify.example/login'',
     em_date = []\<rparr>"

definition vendor_email :: Email where
  "vendor_email = \<lparr>em_uid = 12, em_from_addr = u ''accounts@supplier.example'',
     em_to_addr = u ''company@mail.local'', em_subject = u ''Updated bank details'',
     em_body = u ''Please wire all future payments to our new account.'', em_date = []\<rparr>"

definition spam_backend :: "nat \<Rightarrow> ustr \<Rightarrow> json raises" where
  "spam_backend attempt prompt = Inr (JObj [(u ''response'', JStr spam_response)])"

definition vendors_backend :: "nat \<Rightarrow> ustr \<Rightarrow> json raises" where
  "vendors_backend attempt prompt = Inr (JObj [(u ''response'', JStr vendors_response)])"

text \<open>A router without rules whose analyzer is the local model behind the given
  backend, built as the dashboard builds it.\<close>

definition ollama_router :: "(nat \<Rightarrow> ustr \<Rightarrow> json raises) \<Rightarrow> Router" where
  "ollama_router backend =
     Router_init [] True [] (u ''qwen3:14b'') (u ''analyze'')
       (ollama_analyze sample_lib retrying_analyzer backend)
       (gemini_analyze sample_lib [] (\<lambda>ed. Inl []))"

definition calm_env :: env where
  "calm_env = \<lparr>connect_fails = False, forward_fails = (\<lambda>uid dest. False),
     move_fails = (\<lambda>uid folder source. False)\<rparr>"

definition inbox_world :: "Email list \<Rightarrow> world" where
  "inbox_world msgs =
     \<lparr>emails_data = [], pending_reviews = Map.empty, folders = (\<lambda>f. [])(''INBOX'' := msgs),
      outbox = [], email_log = [], action_log = [], trace = []\<rparr>"

text \<open>What the local-model analyzer returns for the two responses.\<close>

definition spam_analysis :: AnalysisResult where
  "spam_analysis =
     \<lparr>ar_forward_to = u ''spam@mail.local'', ar_category = u ''spam'',
      ar_confidence = Fin (97 / 100),
      ar_reasoning = police_light @ u '' '' @ warning_sign
                     @ u '' [phishing_link] credential theft attempt'',
      ar_additional_destinations = [], ar_raw_response = spam_response\<rparr>"

definition vendors_analysis :: AnalysisResult where
  "vendors_analysis =
     \<lparr>ar_forward_to = u ''vendors@mail.local'', ar_category = u ''vendors'',
      ar_confidence = Fin (55 / 100),
      ar_reasoning = warning_sign @ u '' [wire_transfer] bank change request'',
      ar_additional_destinations = [], ar_raw_response = vendors_response\<rparr>"

text \<open>A router without rules whose analyzer returns the given result for every
  message.\<close>

definition fixed_router :: "AnalysisResult \<Rightarrow> Router" where
  "fixed_router a = \<lparr>rules = [], default_action = u ''analyze'', analyzer = Some (\<lambda>ed. a)\<rparr>"

definition sales_analysis :: "real \<Rightarrow> AnalysisResult" where
  "sales_analysis c =
     \<lparr>ar_forward_to = u ''sales@mail.local'', ar_category = u ''sales'',
      ar_confidence = Fin c, ar_reasoning = u ''wants a quote'',
      ar_additional_destinations = [], ar_raw_response = []\<rparr>"

definition sales_email :: Email where
  "sales_email = \<lparr>em_uid = 13, em_from_addr = u ''buyer@customer.example'',
     em_to_addr = u ''company@mail.local'', em_subject = u ''Request for a quote'',
     em_body = u ''We would like to order 200 units.'', em_date = []\<rparr>"

text \<open>The state of the loop when it reaches a message of the inbox: the message is
  tracked as \<open>Pending\<close>.\<close>

definition pending_world :: "Email \<Rightarrow> world" where
  "pending_world e = (inbox_world [e])\<lparr>emails_data := [new_status e ''Pending'' False]\<rparr>"

text \<open>A mail store on which every move to the Skipped folder fails.\<close>

definition stuck_env :: env where
  "stuck_env = \<lparr>connect_fails = False, forward_fails = (\<lambda>uid dest. False),
     move_fails = (\<lambda>uid folder source. folder = ''Skipped'')\<rparr>"

text \<open>The vendor message parked for review by one poll cycle, the same state after a
  reject whose move failed, and after one more poll cycle.\<close>

definition parked_world :: world where
  "parked_world = process_emails sample_lib calm_env (ollama_router vendors_backend)
     (inbox_world [vendor_email])"

definition rejected_world :: world where
  "rejected_world = reject_email stuck_env (Some 12) parked_world"



text \<open>Two senders for the rule with the pattern \<open>a*b\<close>, and a rule whose keyword
  spans the end of the subject and the start of the body.\<close>

definition star_email :: Email where
  "star_email = \<lparr>em_uid = 21, em_from_addr = u ''a*b@mail.local'',
     em_to_addr = u ''company@mail.local'', em_subject = u ''Hello'', em_body = u ''Hi.'',
     em_date = []\<rparr>"

definition xab_email :: Email where
  "xab_email = \<lparr>em_uid = 22, em_from_addr = u ''xab@mail.local'',
     em_to_addr = u ''company@mail.local'', em_subject = u ''Hello'', em_body = u ''Hi.'',
     em_date = []\<rparr>"

definition star_router :: Router where
  "star_router = \<lparr>rules = [ab_rule, catch_all_rule], default_action = u ''analyze'',
     analyzer = None\<rparr>"

definition due_rule :: Rule where
  "due_rule = \<lparr>rule_name = u ''Due'', rule_match_from = None, rule_match_subject = None,
     rule_match_keywords = Some [u ''report due''], rule_forward_to = u ''finance@mail.local''\<rparr>"

definition due_email :: Email where
  "due_email = \<lparr>em_uid = 23, em_from_addr = u ''cfo@company.com'',
     em_to_addr = u ''company@mail.local'', em_subject = u ''Quarterly report'',
     em_body = u ''due Friday'', em_date = []\<rparr>"

definition due_router :: Router where
  "due_router = \<lparr>rules = [due_rule, catch_all_rule], default_action = u ''analyze'',
     analyzer = None\<rparr>"

section \<open>Notions the claims are stated with\<close>

text \<open>The message of the exception that one pass of the retry loop ends with, if it
  ends with one.\<close>

definition attempt_error :: "pylib \<Rightarrow> OllamaAnalyzer \<Rightarrow> json raises \<Rightarrow> ustr option" where
  "attempt_error L self call =
     (case snd (attempt_once L self call) of Inl e \<Rightarrow> Some e | Inr parsed \<Rightarrow> None)"

text \<open>A text without an opening or a closing brace.\<close>

definition brace_free :: "ustr \<Rightarrow> bool" where
  "brace_free s = (123 \<notin> set s \<and> 125 \<notin> set s)"




section \<open>Rule matching\<close>

lemma startswith_iff: "startswith s p \<longleftrightarrow> (\<exists>t. s = p @ t)"
  by (induction s p rule: startswith.induct) auto

lemma str_in_iff: "str_in p s \<longleftrightarrow> occurs_in p s"
  unfolding occurs_in_def
proof (induction s)
  case Nil
  then show ?case by simp
next
  case (Cons c cs)
  show ?case
  proof
    assume "str_in p (c # cs)"
    then consider "startswith (c # cs) p" | "str_in p cs" by auto
    then show "\<exists>pre suf. c # cs = pre @ p @ suf"
    proof cases
      case 1
      then obtain t where "c # cs = p @ t" using startswith_iff by blast
      then have "c # cs = [] @ p @ t" by simp
      then show ?thesis by blast
    next
      case 2
      then obtain pre suf where "cs = pre @ p @ suf" using Cons.IH by blast
      then have "c # cs = (c # pre) @ p @ suf" by simp
      then show ?thesis by blast
    qed
  next
    assume "\<exists>pre suf. c # cs = pre @ p @ suf"
    then obtain pre suf where d: "c # cs = pre @ p @ suf" by blast
    show "str_in p (c # cs)"
    proof (cases pre)
      case Nil
      with d have "startswith (c # cs) p" using startswith_iff by auto
      then show ?thesis by simp
    next
      case (Cons a pre')
      with d have "cs = pre' @ p @ suf" by simp
      then have "str_in p cs" using Cons.IH by blast
      then show ?thesis by simp
    qed
  qed
qed

lemma matches_iff_spec: "matches L r ed \<longleftrightarrow> amended_rule_holds L r ed"
  by (auto simp: matches_def amended_rule_holds_def from_check_def subject_check_def
      keywords_check_def list_ex_iff str_in_iff Let_def split: option.splits)

lemma check_rules_first:
  assumes "\<forall>x \<in> set pre. \<not> matches L x ed" and "matches L r ed"
  shows "check_rules L (pre @ r # post) ed = Some (rule_decision r)"
  using assms by (induction pre) (simp_all add: rule_decision_def)

lemma check_rules_none:
  assumes "\<forall>x \<in> set rs. \<not> matches L x ed"
  shows "check_rules L rs ed = None"
  using assms by (induction rs) simp_all

lemma decide_no_rule_matched:
  assumes "check_rules L (rules R) (to_dict em) = None"
  shows "rd_matched_rule (decide L R em) = None"
  using assms by (simp add: decide_def Let_def split: option.splits)

text \<open>
  Claim C6, amended. \<open>Router.decide\<close> takes its decision from the first rule, in list
  order, for which every predicate the rule declares holds, where the sender predicate
  tests the configured pattern without its stars, the subject predicate tests the
  subject, and the combined predicate tests the subject, one space and the body (each
  a containment test on lower-cased text, any keyword sufficing); when no rule holds,
  the decision names no rule; and a rule that declares no predicate matches every
  message.
\<close>

theorem decide_first_matching_rule:
  shows "(rules R = pre @ r # post \<and> (\<forall>x \<in> set pre. \<not> amended_rule_holds L x (to_dict em))
            \<and> amended_rule_holds L r (to_dict em)
          \<longrightarrow> decide L R em = rule_decision r)
       \<and> ((\<forall>x \<in> set (rules R). \<not> amended_rule_holds L x (to_dict em))
          \<longrightarrow> rd_matched_rule (decide L R em) = None)
       \<and> (declares_nothing r0 \<longrightarrow> matches L r0 ed0)"
proof (intro conjI impI)
  assume a: "rules R = pre @ r # post \<and> (\<forall>x \<in> set pre. \<not> amended_rule_holds L x (to_dict em))
            \<and> amended_rule_holds L r (to_dict em)"
  then have "check_rules L (rules R) (to_dict em) = Some (rule_decision r)"
    using check_rules_first [of pre L "to_dict em" r post] by (simp add: matches_iff_spec)
  then show "decide L R em = rule_decision r"
    by (simp add: decide_def Let_def)
next
  assume "\<forall>x \<in> set (rules R). \<not> amended_rule_holds L x (to_dict em)"
  then have "check_rules L (rules R) (to_dict em) = None"
    using check_rules_none [of "rules R" L "to_dict em"] by (simp add: matches_iff_spec)
  then show "rd_matched_rule (decide L R em) = None"
    by (rule decide_no_rule_matched)
next
  assume "declares_nothing r0"
  then show "matches L r0 ed0"
    by (auto simp: declares_nothing_def matches_def)
qed

lemma sample_lower [simp]: "str_lower sample_lib = ascii_lower"
  by (simp add: sample_lib_def)

lemma inv_no: "\<not> matches sample_lib invoice_rule (to_dict boss_email)"
  by (simp add: matches_def invoice_rule_def subject_check_def to_dict_def boss_email_def
      dict_get_def ascii_lower_def u_def)

lemma vip_yes: "matches sample_lib vip_rule (to_dict boss_email)"
  by (simp add: matches_def vip_rule_def from_check_def to_dict_def boss_email_def
      dict_get_def ascii_lower_def u_def star_def)

theorem decide_first_matching_rule_witness:
  "rules rules_router = [invoice_rule] @ vip_rule # [catch_all_rule]
   \<and> \<not> amended_rule_holds sample_lib invoice_rule (to_dict boss_email)
   \<and> amended_rule_holds sample_lib vip_rule (to_dict boss_email)
   \<and> amended_rule_holds sample_lib catch_all_rule (to_dict boss_email)
   \<and> declares_nothing catch_all_rule
   \<and> decide sample_lib rules_router boss_email = rule_decision vip_rule
   \<and> rd_matched_rule (decide sample_lib (rules_router\<lparr>rules := [invoice_rule]\<rparr>) boss_email) = None"
proof -
  have r: "rules rules_router = [invoice_rule] @ vip_rule # [catch_all_rule]"
    by (simp add: rules_router_def)
  have n: "\<not> amended_rule_holds sample_lib invoice_rule (to_dict boss_email)"
    using inv_no by (simp add: matches_iff_spec)
  have v: "amended_rule_holds sample_lib vip_rule (to_dict boss_email)"
    using vip_yes by (simp add: matches_iff_spec)
  have d: "declares_nothing catch_all_rule"
    by (simp add: declares_nothing_def catch_all_rule_def)
  have c: "amended_rule_holds sample_lib catch_all_rule (to_dict boss_email)"
    using decide_first_matching_rule [of rules_router "[]" catch_all_rule "[]" sample_lib
        boss_email catch_all_rule "to_dict boss_email"] d
    by (simp add: matches_iff_spec)
  have 1: "decide sample_lib rules_router boss_email = rule_decision vip_rule"
    using decide_first_matching_rule [of rules_router "[invoice_rule]" vip_rule
        "[catch_all_rule]" sample_lib boss_email] r n v by simp
  have 2: "rd_matched_rule (decide sample_lib (rules_router\<lparr>rules := [invoice_rule]\<rparr>) boss_email) = None"
    using decide_first_matching_rule [of "rules_router\<lparr>rules := [invoice_rule]\<rparr>" _ _ _
        sample_lib boss_email] n by simp
  show ?thesis using r n v c d 1 2 by blast
qed

lemma claimed_rule_holds_code:
  "claimed_rule_holds L r ed \<longleftrightarrow>
     (case rule_match_from r of
        None \<Rightarrow> True
      | Some p \<Rightarrow> p = [] \<or> str_in (str_lower L p) (str_lower L (dict_get ed ''from'' [])))
     \<and> (case rule_match_subject r of
          None \<Rightarrow> True
        | Some kws \<Rightarrow> kws = []
            \<or> list_ex (\<lambda>kw. str_in (str_lower L kw) (str_lower L (dict_get ed ''subject'' []))) kws)
     \<and> (case rule_match_keywords r of
          None \<Rightarrow> True
        | Some kws \<Rightarrow> kws = []
            \<or> list_ex (\<lambda>kw. str_in (str_lower L kw)
                  (str_lower L (dict_get ed ''subject'' [] @ dict_get ed ''body'' []))) kws)"
  by (auto simp: claimed_rule_holds_def str_in_iff list_ex_iff split: option.splits)

text \<open>
  Claim C6 as stated fails, with the predicates read as containment of what is
  configured. For the rules \<open>a*b\<close> and a catch-all, the sender \<open>a*b@mail.local\<close>
  contains the pattern, yet the catch-all decides; the sender \<open>xab@mail.local\<close> does
  not contain it, yet the first rule decides. And the keyword \<open>report due\<close> does not
  occur in the subject concatenated with the body, \<open>Quarterly reportdue Friday\<close>, yet
  its rule decides, since the code joins the two with a space.
\<close>

theorem literal_predicates_do_not_decide:
  "rules star_router = [ab_rule, catch_all_rule]
   \<and> claimed_rule_holds sample_lib ab_rule (to_dict star_email)
   \<and> decide sample_lib star_router star_email = rule_decision catch_all_rule
   \<and> \<not> claimed_rule_holds sample_lib ab_rule (to_dict xab_email)
   \<and> decide sample_lib star_router xab_email = rule_decision ab_rule
   \<and> rule_decision ab_rule \<noteq> rule_decision catch_all_rule
   \<and> rules due_router = [due_rule, catch_all_rule]
   \<and> \<not> claimed_rule_holds sample_lib due_rule (to_dict due_email)
   \<and> decide sample_lib due_router due_email = rule_decision due_rule
   \<and> rule_decision due_rule \<noteq> rule_decision catch_all_rule"
proof -
  have 1: "claimed_rule_holds sample_lib ab_rule (to_dict star_email)"
    by (simp add: claimed_rule_holds_code ab_rule_def to_dict_def star_email_def dict_get_def
        ascii_lower_def u_def)
  have 2: "decide sample_lib star_router star_email = rule_decision catch_all_rule"
    by (simp add: decide_def star_router_def matches_def ab_rule_def catch_all_rule_def
        from_check_def to_dict_def star_email_def dict_get_def ascii_lower_def star_def
        rule_decision_def Let_def u_def)
  have 3: "\<not> claimed_rule_holds sample_lib ab_rule (to_dict xab_email)"
    by (simp add: claimed_rule_holds_code ab_rule_def to_dict_def xab_email_def dict_get_def
        ascii_lower_def u_def)
  have 4: "decide sample_lib star_router xab_email = rule_decision ab_rule"
    by (simp add: decide_def star_router_def matches_def ab_rule_def catch_all_rule_def
        from_check_def to_dict_def xab_email_def dict_get_def ascii_lower_def star_def
        rule_decision_def Let_def u_def)
  have 5: "rule_decision ab_rule \<noteq> rule_decision catch_all_rule"
    "rule_decision due_rule \<noteq> rule_decision catch_all_rule"
    by (simp_all add: rule_decision_def ab_rule_def due_rule_def catch_all_rule_def u_def)
  have 6: "\<not> claimed_rule_holds sample_lib due_rule (to_dict due_email)"
    by (simp add: claimed_rule_holds_code due_rule_def to_dict_def due_email_def dict_get_def
        ascii_lower_def u_def)
  have 7: "decide sample_lib due_router due_email = rule_decision due_rule"
    by (simp add: decide_def due_router_def matches_def due_rule_def catch_all_rule_def
        keywords_check_def to_dict_def due_email_def dict_get_def ascii_lower_def
        rule_decision_def Let_def u_def)
  show ?thesis
    using 1 2 3 4 5 6 7 by (simp add: star_router_def due_router_def)
qed

text \<open>
  Claim C9. In the sender predicate every \<open>*\<close> is removed from \<open>match_from\<close> before the
  containment test on lower-cased text: a rule that declares a sender pattern matches
  only messages whose lower-cased sender contains the lower-cased pattern without its
  stars as one contiguous substring, and when it declares nothing else that containment
  is also enough. The star is never a wildcard.
\<close>

theorem sender_pattern_drops_every_star:
  assumes "rule_match_from r = Some p" and "p \<noteq> []"
  shows "(matches L r ed \<longrightarrow>
            occurs_in (str_lower L (filter (\<lambda>c. c \<noteq> star) p))
              (str_lower L (dict_get ed ''from'' [])))
       \<and> ((rule_match_subject r = None \<or> rule_match_subject r = Some [])
            \<and> (rule_match_keywords r = None \<or> rule_match_keywords r = Some [])
            \<and> occurs_in (str_lower L (filter (\<lambda>c. c \<noteq> star) p))
                 (str_lower L (dict_get ed ''from'' []))
          \<longrightarrow> matches L r ed)"
  using assms
  by (auto simp: matches_def from_check_def str_in_iff Let_def split: option.splits)

lemma ab_matches: "matches sample_lib ab_rule [''from'' \<mapsto> u ''xAByz@mail.local'']"
  by (simp add: matches_def ab_rule_def from_check_def dict_get_def ascii_lower_def u_def
      star_def)

lemma ab_no_wildcard: "\<not> matches sample_lib ab_rule [''from'' \<mapsto> u ''a-b@mail.local'']"
  by (simp add: matches_def ab_rule_def from_check_def dict_get_def ascii_lower_def u_def
      star_def)

lemma company_matches:
  "matches sample_lib company_rule [''from'' \<mapsto> u ''Ann <ann@Company.com>'']"
  by (simp add: matches_def company_rule_def from_check_def dict_get_def ascii_lower_def
      u_def star_def)

theorem sender_pattern_drops_every_star_witness:
  "rule_match_from ab_rule = Some (u ''a*b'') \<and> u ''a*b'' \<noteq> []
   \<and> filter (\<lambda>c. c \<noteq> star) (u ''a*b'') = u ''ab''
   \<and> matches sample_lib ab_rule [''from'' \<mapsto> u ''xAByz@mail.local'']
   \<and> occurs_in (u ''ab'') (ascii_lower (u ''xAByz@mail.local''))
   \<and> \<not> matches sample_lib ab_rule [''from'' \<mapsto> u ''a-b@mail.local'']
   \<and> \<not> occurs_in (u ''ab'') (ascii_lower (u ''a-b@mail.local''))
   \<and> matches sample_lib company_rule [''from'' \<mapsto> u ''Ann <ann@Company.com>'']
   \<and> occurs_in (u ''@company.com'') (ascii_lower (u ''Ann <ann@Company.com>''))"
proof -
  have p: "rule_match_from ab_rule = Some (u ''a*b'')" "u ''a*b'' \<noteq> []"
    by (simp_all add: ab_rule_def u_def)
  have q: "rule_match_from company_rule = Some (u ''*@company.com'')" "u ''*@company.com'' \<noteq> []"
    by (simp_all add: company_rule_def u_def)
  have f: "filter (\<lambda>c. c \<noteq> star) (u ''a*b'') = u ''ab''"
    by (simp add: u_def star_def)
  have g: "filter (\<lambda>c. c \<noteq> star) (u ''*@company.com'') = u ''@company.com''"
    by (simp add: u_def star_def)
  have low: "ascii_lower (u ''ab'') = u ''ab''" "ascii_lower (u ''@company.com'') = u ''@company.com''"
    by (simp_all add: ascii_lower_def u_def)
  have others: "rule_match_subject ab_rule = None" "rule_match_keywords ab_rule = None"
    by (simp_all add: ab_rule_def)
  have 1: "occurs_in (u ''ab'') (ascii_lower (u ''xAByz@mail.local''))"
    using sender_pattern_drops_every_star [OF p, of sample_lib "[''from'' \<mapsto> u ''xAByz@mail.local'']"]
      ab_matches by (simp add: f low dict_get_def)
  have 2: "\<not> occurs_in (u ''ab'') (ascii_lower (u ''a-b@mail.local''))"
    using sender_pattern_drops_every_star [OF p, of sample_lib "[''from'' \<mapsto> u ''a-b@mail.local'']"]
      ab_no_wildcard others by (simp add: f low dict_get_def)
  have 3: "occurs_in (u ''@company.com'') (ascii_lower (u ''Ann <ann@Company.com>''))"
    using sender_pattern_drops_every_star [OF q, of sample_lib "[''from'' \<mapsto> u ''Ann <ann@Company.com>'']"]
      company_matches by (simp add: g low dict_get_def)
  show ?thesis using p f 1 2 3 ab_matches ab_no_wildcard company_matches by blast
qed

section \<open>The local-model analyzer\<close>

lemma run_attempts_all_fail:
  assumes "\<forall>i \<in> set idxs. \<exists>e. snd (att i) = Inl e"
  shows "\<exists>raw. run_attempts att idxs last_err last_raw =
           failure_result (if idxs = [] then last_err
                           else (case snd (att (last idxs)) of Inl e \<Rightarrow> Some e | Inr p \<Rightarrow> None)) raw"
  using assms
proof (induction idxs arbitrary: last_err last_raw)
  case Nil
  then show ?case by auto
next
  case (Cons i rest)
  then obtain e where e: "snd (att i) = Inl e" by auto
  then obtain seen where a: "att i = (seen, Inl e)" by (cases "att i") simp
  from Cons.prems have "\<forall>j \<in> set rest. \<exists>e. snd (att j) = Inl e" by simp
  from Cons.IH [OF this, of "Some e" "case seen of None \<Rightarrow> last_raw | Some r \<Rightarrow> r"]
  obtain raw where r: "run_attempts att rest (Some e) (case seen of None \<Rightarrow> last_raw | Some r \<Rightarrow> r)
      = failure_result (if rest = [] then Some e
          else (case snd (att (last rest)) of Inl e \<Rightarrow> Some e | Inr p \<Rightarrow> None)) raw"
    by blast
  show ?case
    using a e r by (auto simp: )
qed

lemma failure_kinds:
  shows "attempt_error L self (Inl e) = Some e"
    and "stripped_field result ''response'' = Inr [] \<Longrightarrow> \<not> debug_accept_thinking_field self
          \<Longrightarrow> attempt_error L self (Inr result) = Some (u ''Empty LLM output (response was blank)'')"
    and "stripped_field result ''response'' = Inr raw \<Longrightarrow> raw \<noteq> [] \<Longrightarrow> parse_response L raw = Inl e
          \<Longrightarrow> attempt_error L self (Inr result) = Some e"
  by (simp_all add: attempt_error_def attempt_once_def Let_def)

text \<open>
  Claim C5. When every attempt of the bounded retry loop ends with an exception (a
  backend error, an empty response body, a parse failure or any other), \<open>analyze\<close>
  returns a result, it does not raise: category \<open>review\<close>, confidence 0.0, an empty
  destination, and a reasoning text that carries the message of the last exception.
\<close>

theorem analyze_degrades_to_review:
  assumes "\<forall>i < nat (max_retries self + 1).
             attempt_error L self (call_ollama i (user_prompt ed)) \<noteq> None"
  shows "ar_category (ollama_analyze L self call_ollama ed) = u ''review''
       \<and> ar_confidence (ollama_analyze L self call_ollama ed) = Fin 0
       \<and> ar_forward_to (ollama_analyze L self call_ollama ed) = []
       \<and> ar_additional_destinations (ollama_analyze L self call_ollama ed) = []
       \<and> ar_reasoning (ollama_analyze L self call_ollama ed) =
           u ''LLM/parse error after retries: '' @
           (if max_retries self < 0 then u ''None''
            else the (attempt_error L self
                        (call_ollama (nat (max_retries self)) (user_prompt ed))))"
proof -
  let ?att = "\<lambda>attempt. attempt_once L self (call_ollama attempt (user_prompt ed))"
  let ?idxs = "[0 ..< nat (max_retries self + 1)]"
  have "\<forall>i \<in> set ?idxs. \<exists>e. snd (?att i) = Inl e"
  proof
    fix i assume "i \<in> set ?idxs"
    then have "attempt_error L self (call_ollama i (user_prompt ed)) \<noteq> None"
      using assms by simp
    then show "\<exists>e. snd (?att i) = Inl e"
      by (cases "snd (?att i)") (simp_all add: attempt_error_def)
  qed
  from run_attempts_all_fail [OF this, of None "[]"]
  obtain raw where r: "ollama_analyze L self call_ollama ed =
      failure_result (if ?idxs = [] then None
         else (case snd (?att (last ?idxs)) of Inl e \<Rightarrow> Some e | Inr p \<Rightarrow> None)) raw"
    by (auto simp: ollama_analyze_def)
  show ?thesis
  proof (cases "max_retries self < 0")
    case True
    then have "?idxs = []" by simp
    with r True show ?thesis by (simp add: failure_result_def)
  next
    case False
    then have n: "nat (max_retries self + 1) = Suc (nat (max_retries self))" by simp
    then have ne: "?idxs \<noteq> []" and l: "last ?idxs = nat (max_retries self)" by simp_all
    have "nat (max_retries self) < nat (max_retries self + 1)" using n by simp
    then obtain e where e: "attempt_error L self (call_ollama (nat (max_retries self)) (user_prompt ed)) = Some e"
      using assms by blast
    then have "snd (?att (nat (max_retries self))) = Inl e"
      by (auto simp: attempt_error_def split: sum.splits)
    with r ne l e False show ?thesis by (simp add: failure_result_def)
  qed
qed

lemma fb0: "attempt_error sample_lib retrying_analyzer (failing_backend 0 p) = Some (u ''Connection refused'')"
  by (simp add: failing_backend_def failure_kinds(1))

lemma fb1: "attempt_error sample_lib retrying_analyzer (failing_backend 1 p)
    = Some (u ''Empty LLM output (response was blank)'')"
  by (simp add: failing_backend_def attempt_error_def attempt_once_def stripped_field_def
      obj_get_def dict_get_def json_truthy_def strip_def lstrip_def rstrip_def isspace_def u_def
      retrying_analyzer_def)

lemma fb2: "attempt_error sample_lib retrying_analyzer (failing_backend 2 p)
    = Some (u ''No JSON found in response'')"
  by (simp add: failing_backend_def attempt_error_def attempt_once_def stripped_field_def
      obj_get_def dict_get_def json_truthy_def strip_def lstrip_def rstrip_def isspace_def u_def
      retrying_analyzer_def parse_response_def extract_json_object_def find_json_region_def
      endswith_def)

theorem analyze_degrades_to_review_witness:
  "attempt_error sample_lib retrying_analyzer (failing_backend 0 (user_prompt (to_dict boss_email))) = Some (u ''Connection refused'')
   \<and> attempt_error sample_lib retrying_analyzer (failing_backend 1 (user_prompt (to_dict boss_email)))
       = Some (u ''Empty LLM output (response was blank)'')
   \<and> attempt_error sample_lib retrying_analyzer (failing_backend 2 (user_prompt (to_dict boss_email)))
       = Some (u ''No JSON found in response'')
   \<and> ar_category (ollama_analyze sample_lib retrying_analyzer failing_backend (to_dict boss_email)) = u ''review''
   \<and> ar_confidence (ollama_analyze sample_lib retrying_analyzer failing_backend (to_dict boss_email)) = Fin 0
   \<and> ar_forward_to (ollama_analyze sample_lib retrying_analyzer failing_backend (to_dict boss_email)) = []
   \<and> ar_reasoning (ollama_analyze sample_lib retrying_analyzer failing_backend (to_dict boss_email))
       = u ''LLM/parse error after retries: No JSON found in response''"
proof -
  have n: "nat (max_retries retrying_analyzer + 1) = 3" "nat (max_retries retrying_analyzer) = 2"
    "\<not> max_retries retrying_analyzer < 0"
    by (simp_all add: retrying_analyzer_def)
  have all: "\<forall>i < nat (max_retries retrying_analyzer + 1).
      attempt_error sample_lib retrying_analyzer (failing_backend i (user_prompt (to_dict boss_email))) \<noteq> None"
  proof (intro allI impI)
    fix i assume "i < nat (max_retries retrying_analyzer + 1)"
    then have "i = 0 \<or> i = 1 \<or> i = 2" using n by auto
    then show "attempt_error sample_lib retrying_analyzer (failing_backend i (user_prompt (to_dict boss_email))) \<noteq> None"
      using fb0 fb1 fb2 by auto
  qed
  have "u ''LLM/parse error after retries: '' @ u ''No JSON found in response''
      = u ''LLM/parse error after retries: No JSON found in response''"
    by (simp add: u_def)
  then show ?thesis
    using analyze_degrades_to_review [where self = retrying_analyzer and L = sample_lib
        and call_ollama = failing_backend and ed = "to_dict boss_email"] all n fb0 fb1 fb2
    by simp
qed

lemma clamp_number_range: "x \<noteq> NaN \<Longrightarrow> in_unit_interval (clamp_number x)"
  by (cases x) (auto simp: clamp_number_def pf_gt_def Let_def)

lemma clamp_string_number_range: "in_unit_interval (clamp_string_number x)"
  by (cases x) (auto simp: clamp_string_number_def pf_gt_def py_min_def py_max_def Let_def)

lemma normalize_confidence_range:
  assumes "val \<noteq> JFloat NaN"
  shows "in_unit_interval (normalize_confidence L val)"
  using assms
  by (cases val)
     (auto simp: normalize_confidence_def float_of_int_def clamp_number_range
        clamp_string_number_range split: option.splits)

lemma normalize_confidence_nan: "normalize_confidence L (JFloat NaN) = NaN"
  by (simp add: normalize_confidence_def clamp_number_def pf_gt_def)

lemma gemini_conf:
  "ar_confidence (gemini_analyze sample_lib sales_destinations (\<lambda>ed. Inr gemini_response) ed) = Fin (3 / 2)"
  by (simp add: gemini_analyze_def sales_destinations_def gemini_parse_response_def
      gemini_response_def u_def strip_def lstrip_def rstrip_def isspace_def gemini_line_def
      after_colon_def sample_lib_def decimal_float_def decimal_unsigned_def is_digit_def
      digits_value_def ascii_lower_def Let_def)


lemma nan_conf:
  "ar_confidence (ollama_analyze sample_lib retrying_analyzer nan_backend ed) = NaN"
  by (simp add: ollama_analyze_def retrying_analyzer_def nan_backend_def attempt_once_def
      stripped_field_def obj_get_def dict_get_def json_truthy_def nan_response_def
      parse_response_def extract_json_object_def sample_lib_def sample_loads_def
      spam_response_def vendors_response_def comma_response_def comma_sanitized_def
      parse_fields_def normalize_confidence_nan py_str_def or_else_def
      u_def strip_def lstrip_def rstrip_def isspace_def endswith_def ascii_lower_def Let_def
      upt_rec [of 0 3])

text \<open>
  Claim C4 says that the confidence of every returned \<open>AnalysisResult\<close>, on either
  backend, lies in [0.0, 1.0] and is never NaN. The code does not keep it: for the
  response with the line \<open>CONFIDENCE: 1.5\<close> the hosted-model analyzer, which has no
  clamp, returns 1.5; and for the object whose confidence is the literal \<open>NaN\<close> the
  local-model analyzer returns NaN, since every comparison of its clamp is false there.
\<close>

theorem confidence_leaves_unit_interval:
  "ar_confidence (gemini_analyze sample_lib sales_destinations (\<lambda>ed. Inr gemini_response)
      (to_dict boss_email)) = Fin (3 / 2)
   \<and> in_unit_interval (Fin (3 / 2)) = False
   \<and> ar_confidence (ollama_analyze sample_lib retrying_analyzer nan_backend (to_dict boss_email)) = NaN"
  using gemini_conf nan_conf by simp

lemma dropWhile_append_keep:
  assumes "ys \<noteq> []" and "\<not> P (hd ys)"
  shows "dropWhile P (xs @ ys) = dropWhile P xs @ ys"
  using assms by (induction xs) (auto simp: neq_Nil_conv)

lemma dropWhile_all: "\<forall>x \<in> set xs. P x \<Longrightarrow> dropWhile P xs = []"
  by (induction xs) auto

lemma startswith_lbrace: "startswith s (u ''{'') \<longleftrightarrow> s \<noteq> [] \<and> hd s = 123"
  by (cases s) (auto simp: u_def)

lemma endswith_rbrace: "endswith s (u ''}'') \<longleftrightarrow> s \<noteq> [] \<and> last s = 125"
proof (cases "rev s")
  case Nil
  then show ?thesis by (simp add: endswith_def u_def)
next
  case (Cons c cs)
  then have "s = rev cs @ [c]" by (metis rev_rev_ident rev.simps(2))
  with Cons show ?thesis by (auto simp: endswith_def u_def)
qed

lemma strip_around:
  assumes "obj \<noteq> []" and "\<not> isspace (hd obj)" and "\<not> isspace (last obj)"
  shows "strip (pre @ obj @ suf) = lstrip pre @ obj @ rstrip suf"
proof -
  have 1: "lstrip (pre @ obj @ suf) = lstrip pre @ obj @ suf"
    using assms dropWhile_append_keep [of "obj @ suf" isspace pre]
    by (simp add: lstrip_def)
  have "rev (lstrip pre @ obj @ suf) = rev suf @ (rev obj @ rev (lstrip pre))" by simp
  moreover have "rev obj @ rev (lstrip pre) \<noteq> []" "\<not> isspace (hd (rev obj @ rev (lstrip pre)))"
    using assms by (simp_all add: hd_rev)
  ultimately have "dropWhile isspace (rev (lstrip pre @ obj @ suf))
      = dropWhile isspace (rev suf) @ (rev obj @ rev (lstrip pre))"
    using dropWhile_append_keep [of "rev obj @ rev (lstrip pre)" isspace "rev suf"] by simp
  then have "rstrip (lstrip pre @ obj @ suf) = lstrip pre @ obj @ rstrip suf"
    by (simp add: rstrip_def)
  with 1 show ?thesis by (simp add: strip_def)
qed

lemma strip_fixed:
  assumes "obj \<noteq> []" and "\<not> isspace (hd obj)" and "\<not> isspace (last obj)"
  shows "strip obj = obj"
  using strip_around [OF assms, of "[]" "[]"] by (simp add: lstrip_def rstrip_def)

lemma brace_free_lstrip: "brace_free s \<Longrightarrow> brace_free (lstrip s)"
  unfolding brace_free_def lstrip_def by (meson set_dropWhileD)

lemma brace_free_rstrip: "brace_free s \<Longrightarrow> brace_free (rstrip s)"
  unfolding brace_free_def rstrip_def by (metis set_dropWhileD set_rev)

lemma find_json_region_around:
  assumes "obj \<noteq> []" and "hd obj = 123" and "last obj = 125"
    and "brace_free pre" and "brace_free suf"
  shows "find_json_region (pre @ obj @ suf) = Some obj"
proof -
  have "\<forall>c \<in> set pre. c \<noteq> 123" using assms(4) by (auto simp: brace_free_def)
  then have a: "dropWhile (\<lambda>c. c \<noteq> 123) pre = []" by (rule dropWhile_all)
  have 1: "dropWhile (\<lambda>c. c \<noteq> 123) (pre @ obj @ suf) = obj @ suf"
    using dropWhile_append_keep [of "obj @ suf" "\<lambda>c. c \<noteq> 123" pre] assms(1,2) a by simp
  have "\<forall>c \<in> set (rev suf). c \<noteq> 125" using assms(5) by (auto simp: brace_free_def)
  then have b: "dropWhile (\<lambda>c. c \<noteq> 125) (rev suf) = []" by (rule dropWhile_all)
  have "dropWhile (\<lambda>c. c \<noteq> 125) (rev suf @ rev obj) = rev obj"
    using dropWhile_append_keep [of "rev obj" "\<lambda>c. c \<noteq> 125" "rev suf"] assms(1,3) b
    by (simp add: hd_rev)
  then have 2: "rev (dropWhile (\<lambda>c. c \<noteq> 125) (rev (obj @ suf))) = obj" by simp
  show ?thesis
    unfolding find_json_region_def Let_def 1 2 using assms(1) by simp
qed

text \<open>
  Claim C8, amended. For every text \<open>obj\<close> that begins with an opening brace, ends
  with a closing brace, is accepted by \<open>json.loads\<close> and is left unchanged by the
  sanitizer, and for every prefix and suffix without braces, the extraction from
  prefix + \<open>obj\<close> + suffix yields the same value as the extraction from \<open>obj\<close>
  alone: the value \<open>json.loads\<close> gives for \<open>obj\<close>.
\<close>

theorem extraction_ignores_surrounding_text:
  assumes valid: "json_loads L obj = Inr v"
    and first: "startswith obj (u ''{'')" and final: "endswith obj (u ''}'')"
    and clean: "sanitize_common_json_issues obj = obj"
    and pre: "brace_free pre" and suf: "brace_free suf"
  shows "extract_json_object L (pre @ obj @ suf) = Inr v
       \<and> extract_json_object L obj = Inr v"
proof -
  have ne: "obj \<noteq> []" and h: "hd obj = 123" and l: "last obj = 125"
    using first final by (simp_all add: startswith_lbrace endswith_rbrace)
  have sp: "\<not> isspace (hd obj)" "\<not> isspace (last obj)"
    using h l by (simp_all add: isspace_def)
  have stays: "strip obj = obj" using strip_fixed [OF ne sp] .
  have bare: "extract_json_object L obj = Inr v"
    using stays first final valid by (simp add: extract_json_object_def Let_def)
  let ?s = "lstrip pre @ obj @ rstrip suf"
  have s: "strip (pre @ obj @ suf) = ?s" using strip_around [OF ne sp] .
  have bf: "brace_free (lstrip pre)" "brace_free (rstrip suf)"
    using pre suf by (simp_all add: brace_free_lstrip brace_free_rstrip)
  have region: "find_json_region ?s = Some obj"
    using find_json_region_around [OF ne h l bf] .
  have "extract_json_object L (pre @ obj @ suf) = Inr v"
  proof (cases "startswith ?s (u ''{'') \<and> endswith ?s (u ''}'')")
    case True
    have "lstrip pre = []"
    proof (rule ccontr)
      assume n: "lstrip pre \<noteq> []"
      then have "hd ?s = hd (lstrip pre)" by simp
      moreover have "hd (lstrip pre) \<in> set (lstrip pre)" using n by simp
      ultimately have "hd ?s \<noteq> 123" using bf(1) by (auto simp: brace_free_def)
      with True show False by (simp add: startswith_lbrace)
    qed
    moreover have "rstrip suf = []"
    proof (rule ccontr)
      assume n: "rstrip suf \<noteq> []"
      then have "last ?s = last (rstrip suf)" by simp
      moreover have "last (rstrip suf) \<in> set (rstrip suf)" using n by simp
      ultimately have "last ?s \<noteq> 125" using bf(2) by (auto simp: brace_free_def)
      with True show False by (simp add: endswith_rbrace)
    qed
    ultimately have "?s = obj" by simp
    with s first final valid show ?thesis
      by (simp add: extract_json_object_def Let_def)
  next
    case False
    then have "(if startswith ?s (u ''{'') \<and> endswith ?s (u ''}'')
                then (case json_loads L ?s of Inr v \<Rightarrow> Some v | Inl e \<Rightarrow> None)
                else None) = None"
      by (simp only: if_False)
    with s region stays clean valid show ?thesis
      by (simp only: extract_json_object_def Let_def option.case sum.case)
  qed
  with bare show ?thesis by simp
qed


lemma loads_spam: "json_loads sample_lib spam_response = Inr spam_object"
  by (simp add: sample_lib_def sample_loads_def)

lemma loads_comma:
  "json_loads sample_lib comma_response = Inr (JObj [(u ''a'', JStr (u '',}''))])"
  "json_loads sample_lib comma_sanitized = Inr (JObj [(u ''a'', JStr (u ''}''))])"
  by (simp_all add: sample_lib_def sample_loads_def spam_response_def vendors_response_def
      comma_response_def comma_sanitized_def u_def)

lemma sanitize_spam: "sanitize_common_json_issues spam_response = spam_response"
  by (simp add: sanitize_common_json_issues_def replace_smart_quotes_def spam_response_def
      u_def isspace_def)

lemma sanitize_comma: "sanitize_common_json_issues comma_response = comma_sanitized"
  by (simp add: sanitize_common_json_issues_def replace_smart_quotes_def comma_response_def
      comma_sanitized_def u_def isspace_def)

theorem extraction_ignores_surrounding_text_witness:
  "json_loads sample_lib spam_response = Inr spam_object
   \<and> startswith spam_response (u ''{'') \<and> endswith spam_response (u ''}'')
   \<and> sanitize_common_json_issues spam_response = spam_response
   \<and> brace_free (u ''Here is the JSON: '') \<and> brace_free (u '' Hope this helps.'')
   \<and> extract_json_object sample_lib
        (u ''Here is the JSON: '' @ spam_response @ u '' Hope this helps.'') = Inr spam_object
   \<and> extract_json_object sample_lib spam_response = Inr spam_object"
proof -
  have a: "startswith spam_response (u ''{'')" "endswith spam_response (u ''}'')"
    by (simp_all add: spam_response_def u_def endswith_def)
  have b: "brace_free (u ''Here is the JSON: '')" "brace_free (u '' Hope this helps.'')"
    by (simp_all add: brace_free_def u_def)
  show ?thesis
    using extraction_ignores_surrounding_text [OF loads_spam a sanitize_spam b]
      loads_spam a sanitize_spam b by simp
qed

text \<open>
  Claim C8 as stated fails: the valid object \<open>{"a":",}"}\<close> is parsed as it is when
  it stands alone, but between a prefix and a suffix the sanitizer first removes the
  comma inside its string, and the extraction yields another dictionary.
\<close>

theorem extraction_depends_on_surrounding_text:
  "json_loads sample_lib comma_response = Inr (JObj [(u ''a'', JStr (u '',}''))])
   \<and> brace_free (u ''Result: '') \<and> brace_free (u '' done'')
   \<and> extract_json_object sample_lib comma_response = Inr (JObj [(u ''a'', JStr (u '',}''))])
   \<and> extract_json_object sample_lib (u ''Result: '' @ comma_response @ u '' done'')
       = Inr (JObj [(u ''a'', JStr (u ''}''))])
   \<and> JObj [(u ''a'', JStr (u '',}''))] \<noteq> JObj [(u ''a'', JStr (u ''}''))]"
proof -
  have ne: "comma_response \<noteq> []" and h: "hd comma_response = 123" and l: "last comma_response = 125"
    by (simp_all add: comma_response_def u_def)
  have sp: "\<not> isspace (hd comma_response)" "\<not> isspace (last comma_response)"
    using h l by (simp_all add: isspace_def)
  have b: "brace_free (u ''Result: '')" "brace_free (u '' done'')"
    by (simp_all add: brace_free_def u_def)
  have ends: "startswith comma_response (u ''{'')" "endswith comma_response (u ''}'')"
    using ne h l by (simp_all add: startswith_lbrace endswith_rbrace)
  have bare: "extract_json_object sample_lib comma_response
      = Inr (JObj [(u ''a'', JStr (u '',}''))])"
    using strip_fixed [OF ne sp] ends loads_comma(1)
    by (simp add: extract_json_object_def Let_def)
  have st: "strip (u ''Result: '' @ comma_response @ u '' done'')
      = u ''Result: '' @ comma_response @ u '' done''"
    using strip_around [OF ne sp, of "u ''Result: ''" "u '' done''"]
    by (simp add: lstrip_def rstrip_def u_def isspace_def)
  have nf: "\<not> startswith (u ''Result: '' @ comma_response @ u '' done'') (u ''{'')"
    by (simp add: u_def)
  have region: "find_json_region (u ''Result: '' @ comma_response @ u '' done'')
      = Some comma_response"
    using find_json_region_around [OF ne h l b] .
  have framed: "extract_json_object sample_lib (u ''Result: '' @ comma_response @ u '' done'')
      = Inr (JObj [(u ''a'', JStr (u ''}''))])"
    using st nf region strip_fixed [OF ne sp] sanitize_comma loads_comma(2)
    by (simp add: extract_json_object_def Let_def)
  have "JObj [(u ''a'', JStr (u '',}''))] \<noteq> JObj [(u ''a'', JStr (u ''}''))]"
    by (simp add: u_def)
  with bare framed b loads_comma(1) show ?thesis by simp
qed

section \<open>The dashboard\<close>

lemma sample_fields [simp]:
  "str_lower sample_lib = ascii_lower" "json_loads sample_lib = sample_loads"
  "float_of_str sample_lib = decimal_float" "str_of_value sample_lib = sample_str"
  by (simp_all add: sample_lib_def)

lemma strip_spam: "strip spam_response = spam_response"
  by (simp add: strip_def lstrip_def rstrip_def spam_response_def u_def isspace_def)

lemma strip_vendors: "strip vendors_response = vendors_response"
  by (simp add: strip_def lstrip_def rstrip_def vendors_response_def u_def isspace_def)

lemma ends_spam: "startswith spam_response (u ''{'')" "endswith spam_response (u ''}'')"
  "spam_response \<noteq> []"
  by (simp_all add: spam_response_def u_def endswith_def)

lemma ends_vendors: "startswith vendors_response (u ''{'')" "endswith vendors_response (u ''}'')"
  "vendors_response \<noteq> []"
  by (simp_all add: vendors_response_def u_def endswith_def)

lemma loads_vendors: "sample_loads vendors_response = Inr vendors_object"
  by (simp add: sample_loads_def spam_response_def vendors_response_def u_def)

lemma loads_spam': "sample_loads spam_response = Inr spam_object"
  by (simp add: sample_loads_def)

lemma extract_spam: "extract_json_object sample_lib spam_response = Inr spam_object"
  by (simp add: extract_json_object_def strip_spam ends_spam loads_spam')

lemma extract_vendors: "extract_json_object sample_lib vendors_response = Inr vendors_object"
  by (simp add: extract_json_object_def strip_vendors ends_vendors loads_vendors)

lemma parse_spam:
  "parse_response sample_lib spam_response = Inr
     \<lparr>ar_forward_to = u ''spam@mail.local'', ar_category = u ''spam'',
      ar_confidence = Fin (97 / 100),
      ar_reasoning = police_light @ u '' '' @ warning_sign
                     @ u '' [phishing_link] credential theft attempt'',
      ar_additional_destinations = [], ar_raw_response = []\<rparr>"
  unfolding parse_response_def extract_spam
  by (simp add: spam_object_def parse_fields_def obj_get_def dict_get_def py_str_def
      normalize_confidence_def clamp_number_def pf_gt_def or_else_def police_light_def
      warning_sign_def ascii_lower_def strip_def lstrip_def rstrip_def isspace_def u_def Let_def)

lemma parse_vendors:
  "parse_response sample_lib vendors_response = Inr
     \<lparr>ar_forward_to = u ''vendors@mail.local'', ar_category = u ''vendors'',
      ar_confidence = Fin (55 / 100),
      ar_reasoning = warning_sign @ u '' [wire_transfer] bank change request'',
      ar_additional_destinations = [], ar_raw_response = []\<rparr>"
  unfolding parse_response_def extract_vendors
  by (simp add: vendors_object_def parse_fields_def obj_get_def dict_get_def py_str_def
      normalize_confidence_def clamp_number_def pf_gt_def or_else_def police_light_def
      warning_sign_def ascii_lower_def strip_def lstrip_def rstrip_def isspace_def u_def Let_def)

lemma analyze_spam:
  "ollama_analyze sample_lib retrying_analyzer spam_backend ed = spam_analysis"
  by (simp add: ollama_analyze_def retrying_analyzer_def spam_backend_def attempt_once_def
      stripped_field_def obj_get_def dict_get_def json_truthy_def ends_spam strip_spam
      parse_spam upt_rec [of 0 3] u_def spam_analysis_def)

lemma analyze_vendors:
  "ollama_analyze sample_lib retrying_analyzer vendors_backend ed = vendors_analysis"
  by (simp add: ollama_analyze_def retrying_analyzer_def vendors_backend_def attempt_once_def
      stripped_field_def obj_get_def dict_get_def json_truthy_def ends_vendors strip_vendors
      parse_vendors upt_rec [of 0 3] u_def vendors_analysis_def)

lemma spam_mentions_flag: "str_in (u ''phishing_link'') (ar_reasoning spam_analysis)"
  by (simp add: spam_analysis_def police_light_def warning_sign_def u_def)

lemma decide_spam:
  "decide sample_lib (ollama_router spam_backend) em =
     \<lparr>rd_forward_to = u ''spam@mail.local'', rd_matched_rule = None,
      rd_ai_result = Some spam_analysis, rd_should_forward = True,
      rd_additional_destinations = []\<rparr>"
  by (simp add: decide_def ollama_router_def Router_init_def analyze_spam Let_def)
     (simp add: spam_analysis_def pf_ge_def auto_forward_threshold_decide_def u_def)

lemma decide_vendors:
  "decide sample_lib (ollama_router vendors_backend) em =
     \<lparr>rd_forward_to = u ''vendors@mail.local'', rd_matched_rule = None,
      rd_ai_result = Some vendors_analysis, rd_should_forward = False,
      rd_additional_destinations = []\<rparr>"
  by (simp add: decide_def ollama_router_def Router_init_def analyze_vendors Let_def)
     (simp add: vendors_analysis_def pf_ge_def auto_forward_threshold_decide_def u_def)

lemma process_spam:
  "emails_data (process_emails sample_lib calm_env (ollama_router spam_backend) (inbox_world [spam_email]))
     = [(new_status spam_email ''Forwarded'' False)
          \<lparr>es_category := u ''spam'', es_confidence := Fin (97 / 100),
           es_reasoning := ar_reasoning spam_analysis,
           es_forward_to := [u ''spam@mail.local'']\<rparr>]"
  "folders (process_emails sample_lib calm_env (ollama_router spam_backend) (inbox_world [spam_email])) ''Processed''
     = [spam_email]"
  "folders (process_emails sample_lib calm_env (ollama_router spam_backend) (inbox_world [spam_email])) ''Quarantine''
     = []"
  "folders (process_emails sample_lib calm_env (ollama_router spam_backend) (inbox_world [spam_email])) ''INBOX''
     = []"
  "outbox (process_emails sample_lib calm_env (ollama_router spam_backend) (inbox_world [spam_email]))
     = [(11, u ''spam@mail.local'')]"
  by (simp_all add: process_emails_def scan_review_folder_def process_unread_def process_one_def decide_spam
      inbox_world_def calm_env_def auto_approve_def auto_forward_def park_for_review_def
      auto_forward_threshold_dashboard_def pf_gt_def all_destinations_def forward_email_def
      move_email_def set_record_def new_status_def spam_email_def spam_analysis_def Let_def
      u_def)


lemmas dashboard_defs =
  process_emails_def scan_review_folder_def process_unread_def process_one_def
  inbox_world_def calm_env_def auto_approve_def auto_forward_def park_for_review_def
  auto_forward_threshold_dashboard_def pf_gt_def all_destinations_def forward_email_def
  move_email_def set_record_def new_status_def approve_email_def approve_destinations_def
  approve_finish_def reject_email_def

lemma process_vendors:
  "emails_data (process_emails sample_lib calm_env (ollama_router vendors_backend) (inbox_world [vendor_email]))
     = [(new_status vendor_email ''Review'' True)
          \<lparr>es_category := u ''vendors'', es_confidence := Fin (55 / 100),
           es_reasoning := ar_reasoning vendors_analysis\<rparr>]"
  "folders (process_emails sample_lib calm_env (ollama_router vendors_backend) (inbox_world [vendor_email])) ''Review''
     = [vendor_email]"
  "pending_reviews (process_emails sample_lib calm_env (ollama_router vendors_backend) (inbox_world [vendor_email])) 12
     = Some \<lparr>pr_email = vendor_email,
             pr_decision = Some (decide sample_lib (ollama_router vendors_backend) vendor_email)\<rparr>"
  "outbox (process_emails sample_lib calm_env (ollama_router vendors_backend) (inbox_world [vendor_email]))
     = []"
  by (simp_all add: dashboard_defs decide_vendors vendor_email_def vendors_analysis_def Let_def u_def)

lemma approve_vendors:
  "outbox (approve_email calm_env (Some 12)
     (process_emails sample_lib calm_env (ollama_router vendors_backend) (inbox_world [vendor_email]))) = []"
  "folders (approve_email calm_env (Some 12)
     (process_emails sample_lib calm_env (ollama_router vendors_backend) (inbox_world [vendor_email]))) ''Review''
     = [vendor_email]"
  "folders (approve_email calm_env (Some 12)
     (process_emails sample_lib calm_env (ollama_router vendors_backend) (inbox_world [vendor_email]))) ''Processed''
     = []"
  "emails_data (approve_email calm_env (Some 12)
     (process_emails sample_lib calm_env (ollama_router vendors_backend) (inbox_world [vendor_email])))
     = [(new_status vendor_email ''Forwarded'' False)
          \<lparr>es_category := u ''vendors'', es_confidence := Fin (55 / 100),
           es_reasoning := ar_reasoning vendors_analysis\<rparr>]"
  "pending_reviews (approve_email calm_env (Some 12)
     (process_emails sample_lib calm_env (ollama_router vendors_backend) (inbox_world [vendor_email]))) 12
     = None"
  by (simp_all add: dashboard_defs decide_vendors vendor_email_def vendors_analysis_def Let_def u_def)


lemma set_record_fields [simp]:
  "outbox (set_record uid f w) = outbox w" "trace (set_record uid f w) = trace w"
  "folders (set_record uid f w) = folders w"
  "pending_reviews (set_record uid f w) = pending_reviews w"
  "action_log (set_record uid f w) = action_log w"
  "emails_data (set_record uid f w) = update_first uid f (emails_data w)"
  by (simp_all add: set_record_def)

lemma move_email_fields:
  "outbox (fst (move_email E uid folder src w)) = outbox w"
  "trace (fst (move_email E uid folder src w)) = trace w @ [MoveEmail uid folder src]"
  "emails_data (fst (move_email E uid folder src w)) = emails_data w"
  "pending_reviews (fst (move_email E uid folder src w)) = pending_reviews w"
  "action_log (fst (move_email E uid folder src w)) = action_log w"
  "move_fails E uid folder src \<Longrightarrow> folders (fst (move_email E uid folder src w)) = folders w"
  by (simp_all add: move_email_def Let_def)


lemma forward_all_delivers:
  assumes "\<forall>d \<in> set dests. \<not> forward_fails E (em_uid email) d"
  shows "outbox (fst (forward_all E email dests w)) = outbox w @ map (Pair (em_uid email)) dests
       \<and> snd (forward_all E email dests w) = False"
  using assms by (induction dests arbitrary: w) (simp_all add: forward_email_def Let_def)

lemma park_for_review_fields:
  "outbox (fst (park_for_review E email decision w)) = outbox w"
  "\<exists>rest. trace (fst (park_for_review E email decision w)) = trace w @ rest"
  by (simp_all add: park_for_review_def move_email_def Let_def)


lemma auto_forward_delivers:
  assumes "\<forall>d \<in> set (all_destinations decision). \<not> forward_fails E (em_uid email) d"
  shows "outbox (auto_forward E email decision ai w)
       = outbox w @ map (Pair (em_uid email)) (all_destinations decision)"
proof -
  obtain w1 b where f: "forward_all E email (all_destinations decision) w = (w1, b)"
    by (cases "forward_all E email (all_destinations decision) w")
  have "outbox w1 = outbox w @ map (Pair (em_uid email)) (all_destinations decision)" "b = False"
    using forward_all_delivers [OF assms, of w] f by simp_all
  then show ?thesis
    using f by (auto simp: auto_forward_def move_email_def Let_def)
qed





lemma above_dashboard_above_decide:
  "pf_gt c auto_forward_threshold_dashboard \<Longrightarrow> pf_ge c auto_forward_threshold_decide"
  by (cases c)
     (auto simp: pf_gt_def pf_ge_def auto_forward_threshold_dashboard_def
        auto_forward_threshold_decide_def)

lemma decide_by_analyzer:
  assumes "\<forall>r \<in> set (rules R). \<not> matches L r (to_dict em)"
    and "analyzer R = Some analyze"
    and "default_action R = u ''analyze'' \<or> default_action R = u ''ai_route''"
  shows "decide L R em =
     \<lparr>rd_forward_to = ar_forward_to (analyze (to_dict em)), rd_matched_rule = None,
      rd_ai_result = Some (analyze (to_dict em)),
      rd_should_forward = (ar_forward_to (analyze (to_dict em)) \<noteq> []
         \<and> pf_ge (ar_confidence (analyze (to_dict em))) auto_forward_threshold_decide),
      rd_additional_destinations = ar_additional_destinations (analyze (to_dict em))\<rparr>"
proof -
  have "check_rules L (rules R) (to_dict em) = None"
    using assms(1) by (rule check_rules_none)
  with assms(2,3) show ?thesis by (auto simp: decide_def Let_def)
qed

lemma update_first_twice:
  assumes "\<And>r. es_uid (g r) = es_uid r"
  shows "update_first uid f (update_first uid g rs) = update_first uid (\<lambda>r. f (g r)) rs"
  using assms by (induction rs) simp_all

lemma park_for_review_effect:
  "emails_data (fst (park_for_review E email decision w))
     = update_first (em_uid email)
         (\<lambda>r. r\<lparr>es_status := ''Review'', es_needs_review := True,
                es_forward_to := (if rd_should_forward decision
                                  then all_destinations decision else [])\<rparr>)
         (emails_data w)"
  "trace (fst (park_for_review E email decision w))
     = trace w @ [MoveEmail (em_uid email) ''Review'' ''INBOX'']"
  "\<not> move_fails E (em_uid email) ''Review'' ''INBOX'' \<Longrightarrow>
     pending_reviews (fst (park_for_review E email decision w)) (em_uid email)
       = Some \<lparr>pr_email = email, pr_decision = Some decision\<rparr>
     \<and> folders (fst (park_for_review E email decision w)) ''INBOX''
         = filter (\<lambda>m. em_uid m \<noteq> em_uid email) (folders w ''INBOX'')
     \<and> folders (fst (park_for_review E email decision w)) ''Review''
         = folders w ''Review'' @ filter (\<lambda>m. em_uid m = em_uid email) (folders w ''INBOX'')"
  by (simp_all add: park_for_review_def move_email_def Let_def)

text \<open>
  Claim C1, amended. For a message that no rule matches, with an analyzer configured
  and a default action of \<open>analyze\<close> or \<open>ai_route\<close>: \<open>Router.decide\<close> sets
  should-forward exactly when the primary destination of the analysis is not empty and
  its confidence is at least 0.7; the auto-forward step of the dashboard runs exactly
  when the destination is not empty and the confidence is strictly above 0.80. When
  that step does not run, nothing is sent and the message is parked for review: its
  record takes the analysis, the state \<open>Review\<close>, needs-review true and the
  destinations of the decision if should-forward is set (none otherwise); the message
  is moved from the inbox to the Review folder; and when that move succeeds it is
  entered in the pending-review map with its decision. When the step runs and no
  forward fails, one copy goes to every destination of the decision.
\<close>

theorem thresholds_of_decide_and_dashboard:
  assumes "\<forall>r \<in> set (rules R). \<not> matches L r (to_dict em)"
    and "analyzer R = Some analyze"
    and "default_action R = u ''analyze'' \<or> default_action R = u ''ai_route''"
  shows "(rd_should_forward (decide L R em) \<longleftrightarrow>
            ar_forward_to (analyze (to_dict em)) \<noteq> []
            \<and> pf_ge (ar_confidence (analyze (to_dict em))) (Fin (7 / 10)))
       \<and> (auto_approve (decide L R em) \<longleftrightarrow>
            ar_forward_to (analyze (to_dict em)) \<noteq> []
            \<and> pf_gt (ar_confidence (analyze (to_dict em))) (Fin (8 / 10)))
       \<and> (\<not> auto_approve (decide L R em) \<longrightarrow>
            outbox (fst (process_one L E R em w)) = outbox w
            \<and> emails_data (fst (process_one L E R em w))
                = update_first (em_uid em)
                    (\<lambda>r. r\<lparr>es_category := ar_category (analyze (to_dict em)),
                           es_confidence := ar_confidence (analyze (to_dict em)),
                           es_reasoning := ar_reasoning (analyze (to_dict em)),
                           es_status := ''Review'', es_needs_review := True,
                           es_forward_to := (if rd_should_forward (decide L R em)
                                             then all_destinations (decide L R em) else [])\<rparr>)
                    (emails_data w)
            \<and> trace (fst (process_one L E R em w))
                = trace w @ [MoveEmail (em_uid em) ''Review'' ''INBOX'']
            \<and> (\<not> move_fails E (em_uid em) ''Review'' ''INBOX'' \<longrightarrow>
                 pending_reviews (fst (process_one L E R em w)) (em_uid em)
                   = Some \<lparr>pr_email = em, pr_decision = Some (decide L R em)\<rparr>
                 \<and> folders (fst (process_one L E R em w)) ''INBOX''
                     = filter (\<lambda>m. em_uid m \<noteq> em_uid em) (folders w ''INBOX'')
                 \<and> folders (fst (process_one L E R em w)) ''Review''
                     = folders w ''Review''
                       @ filter (\<lambda>m. em_uid m = em_uid em) (folders w ''INBOX'')))
       \<and> (auto_approve (decide L R em)
            \<and> (\<forall>d \<in> set (all_destinations (decide L R em)). \<not> forward_fails E (em_uid em) d)
          \<longrightarrow> outbox (fst (process_one L E R em w))
                = outbox w @ map (Pair (em_uid em)) (all_destinations (decide L R em)))"
proof -
  let ?a = "analyze (to_dict em)"
  let ?d = "decide L R em"
  let ?w2 = "set_record (em_uid em)
               (\<lambda>r. r\<lparr>es_category := ar_category ?a, es_confidence := ar_confidence ?a,
                      es_reasoning := ar_reasoning ?a\<rparr>)
               (set_record (em_uid em) (\<lambda>r. r\<lparr>es_status := ''Processing''\<rparr>) w)"
  have d: "rd_ai_result ?d = Some ?a"
    "rd_should_forward ?d = (ar_forward_to ?a \<noteq> []
       \<and> pf_ge (ar_confidence ?a) auto_forward_threshold_decide)"
    using decide_by_analyzer [OF assms] by simp_all
  have 1: "rd_should_forward ?d \<longleftrightarrow>
      ar_forward_to ?a \<noteq> [] \<and> pf_ge (ar_confidence ?a) (Fin (7 / 10))"
    using d(2) by (simp add: auto_forward_threshold_decide_def)
  have 2: "auto_approve ?d \<longleftrightarrow>
      ar_forward_to ?a \<noteq> [] \<and> pf_gt (ar_confidence ?a) (Fin (8 / 10))"
    using d above_dashboard_above_decide [of "ar_confidence ?a"]
    by (auto simp: auto_approve_def auto_forward_threshold_dashboard_def)
  have w2: "outbox ?w2 = outbox w" "trace ?w2 = trace w" "folders ?w2 = folders w"
    "pending_reviews ?w2 = pending_reviews w"
    by simp_all
  have 3: "\<not> auto_approve ?d \<longrightarrow>
            outbox (fst (process_one L E R em w)) = outbox w
            \<and> emails_data (fst (process_one L E R em w))
                = update_first (em_uid em)
                    (\<lambda>r. r\<lparr>es_category := ar_category ?a,
                           es_confidence := ar_confidence ?a,
                           es_reasoning := ar_reasoning ?a,
                           es_status := ''Review'', es_needs_review := True,
                           es_forward_to := (if rd_should_forward ?d
                                             then all_destinations ?d else [])\<rparr>)
                    (emails_data w)
            \<and> trace (fst (process_one L E R em w))
                = trace w @ [MoveEmail (em_uid em) ''Review'' ''INBOX'']
            \<and> (\<not> move_fails E (em_uid em) ''Review'' ''INBOX'' \<longrightarrow>
                 pending_reviews (fst (process_one L E R em w)) (em_uid em)
                   = Some \<lparr>pr_email = em, pr_decision = Some ?d\<rparr>
                 \<and> folders (fst (process_one L E R em w)) ''INBOX''
                     = filter (\<lambda>m. em_uid m \<noteq> em_uid em) (folders w ''INBOX'')
                 \<and> folders (fst (process_one L E R em w)) ''Review''
                     = folders w ''Review''
                       @ filter (\<lambda>m. em_uid m = em_uid em) (folders w ''INBOX''))"
  proof
    assume n: "\<not> auto_approve ?d"
    then have p: "process_one L E R em w = park_for_review E em ?d ?w2"
      using d(1) by (simp add: process_one_def Let_def)
    have e: "emails_data (fst (park_for_review E em ?d ?w2))
        = update_first (em_uid em)
            (\<lambda>r. r\<lparr>es_category := ar_category ?a,
                           es_confidence := ar_confidence ?a,
                           es_reasoning := ar_reasoning ?a,
                           es_status := ''Review'', es_needs_review := True,
                           es_forward_to := (if rd_should_forward ?d then all_destinations ?d else [])\<rparr>)
            (emails_data w)"
      unfolding park_for_review_effect(1) by (simp add: update_first_twice)
    show "outbox (fst (process_one L E R em w)) = outbox w
            \<and> emails_data (fst (process_one L E R em w))
                = update_first (em_uid em)
                    (\<lambda>r. r\<lparr>es_category := ar_category ?a,
                           es_confidence := ar_confidence ?a,
                           es_reasoning := ar_reasoning ?a,
                           es_status := ''Review'', es_needs_review := True,
                           es_forward_to := (if rd_should_forward ?d
                                             then all_destinations ?d else [])\<rparr>)
                    (emails_data w)
            \<and> trace (fst (process_one L E R em w))
                = trace w @ [MoveEmail (em_uid em) ''Review'' ''INBOX'']
            \<and> (\<not> move_fails E (em_uid em) ''Review'' ''INBOX'' \<longrightarrow>
                 pending_reviews (fst (process_one L E R em w)) (em_uid em)
                   = Some \<lparr>pr_email = em, pr_decision = Some ?d\<rparr>
                 \<and> folders (fst (process_one L E R em w)) ''INBOX''
                     = filter (\<lambda>m. em_uid m \<noteq> em_uid em) (folders w ''INBOX'')
                 \<and> folders (fst (process_one L E R em w)) ''Review''
                     = folders w ''Review''
                       @ filter (\<lambda>m. em_uid m = em_uid em) (folders w ''INBOX''))"
      unfolding p
      using e park_for_review_fields(1) [of E em ?d ?w2] park_for_review_effect(2) [of E em ?d ?w2]
        park_for_review_effect(3) [of E em ?d ?w2] w2
      by simp
  qed
  have 4: "auto_approve ?d
      \<and> (\<forall>d \<in> set (all_destinations ?d). \<not> forward_fails E (em_uid em) d)
      \<longrightarrow> outbox (fst (process_one L E R em w))
            = outbox w @ map (Pair (em_uid em)) (all_destinations ?d)"
    using d(1) by (simp add: process_one_def Let_def auto_forward_delivers)
  from 1 2 3 4 show ?thesis by blast
qed

lemma fixed_router_fields:
  "rules (fixed_router a) = []" "analyzer (fixed_router a) = Some (\<lambda>ed. a)"
  "default_action (fixed_router a) = u ''analyze''"
  by (simp_all add: fixed_router_def)

theorem thresholds_of_decide_and_dashboard_witness:
  "rules (fixed_router (sales_analysis (9 / 10))) = []
   \<and> analyzer (fixed_router (sales_analysis (9 / 10))) = Some (\<lambda>ed. sales_analysis (9 / 10))
   \<and> default_action (fixed_router (sales_analysis (9 / 10))) = u ''analyze''
   \<and> rd_should_forward (decide sample_lib (fixed_router (sales_analysis (9 / 10))) sales_email)
   \<and> auto_approve (decide sample_lib (fixed_router (sales_analysis (9 / 10))) sales_email)
   \<and> outbox (fst (process_one sample_lib calm_env (fixed_router (sales_analysis (9 / 10)))
        sales_email (pending_world sales_email))) = [(13, u ''sales@mail.local'')]
   \<and> rd_should_forward (decide sample_lib (fixed_router (sales_analysis (3 / 4))) sales_email)
   \<and> \<not> auto_approve (decide sample_lib (fixed_router (sales_analysis (3 / 4))) sales_email)
   \<and> \<not> move_fails calm_env (em_uid sales_email) ''Review'' ''INBOX''
   \<and> outbox (fst (process_one sample_lib calm_env (fixed_router (sales_analysis (3 / 4)))
        sales_email (pending_world sales_email))) = []
   \<and> folders (fst (process_one sample_lib calm_env (fixed_router (sales_analysis (3 / 4)))
        sales_email (pending_world sales_email))) ''Review'' = [sales_email]
   \<and> folders (fst (process_one sample_lib calm_env (fixed_router (sales_analysis (3 / 4)))
        sales_email (pending_world sales_email))) ''INBOX'' = []
   \<and> pending_reviews (fst (process_one sample_lib calm_env (fixed_router (sales_analysis (3 / 4)))
        sales_email (pending_world sales_email))) 13
       = Some \<lparr>pr_email = sales_email,
               pr_decision = Some (decide sample_lib (fixed_router (sales_analysis (3 / 4)))
                                     sales_email)\<rparr>
   \<and> map es_status (emails_data (fst (process_one sample_lib calm_env
        (fixed_router (sales_analysis (3 / 4))) sales_email (pending_world sales_email))))
       = [''Review'']"
proof -
  let ?R = "fixed_router (sales_analysis (9 / 10))"
  have h: "\<forall>r \<in> set (rules ?R). \<not> matches sample_lib r (to_dict sales_email)"
    "analyzer ?R = Some (\<lambda>ed. sales_analysis (9 / 10))"
    "default_action ?R = u ''analyze'' \<or> default_action ?R = u ''ai_route''"
    by (simp_all add: fixed_router_fields)
  have v: "ar_forward_to (sales_analysis (9 / 10)) \<noteq> []"
    "pf_ge (ar_confidence (sales_analysis (9 / 10))) (Fin (7 / 10))"
    "pf_gt (ar_confidence (sales_analysis (9 / 10))) (Fin (8 / 10))"
    by (simp_all add: sales_analysis_def u_def pf_ge_def pf_gt_def)
  note t = thresholds_of_decide_and_dashboard [OF h, of calm_env "pending_world sales_email"]
  have sf: "rd_should_forward (decide sample_lib ?R sales_email)"
    and aa: "auto_approve (decide sample_lib ?R sales_email)"
    using t v by simp_all
  have dests: "all_destinations (decide sample_lib ?R sales_email) = [u ''sales@mail.local'']"
    using decide_by_analyzer [OF h]
    by (simp add: all_destinations_def sales_analysis_def u_def)
  have nf: "\<forall>d \<in> set (all_destinations (decide sample_lib ?R sales_email)).
      \<not> forward_fails calm_env (em_uid sales_email) d"
    by (simp add: calm_env_def)
  have sent: "outbox (fst (process_one sample_lib calm_env ?R sales_email (pending_world sales_email)))
      = [(13, u ''sales@mail.local'')]"
    using t aa nf dests by (simp add: pending_world_def inbox_world_def sales_email_def)
  let ?Q = "fixed_router (sales_analysis (3 / 4))"
  have k: "\<forall>r \<in> set (rules ?Q). \<not> matches sample_lib r (to_dict sales_email)"
    "analyzer ?Q = Some (\<lambda>ed. sales_analysis (3 / 4))"
    "default_action ?Q = u ''analyze'' \<or> default_action ?Q = u ''ai_route''"
    by (simp_all add: fixed_router_fields)
  have x: "ar_forward_to (sales_analysis (3 / 4)) \<noteq> []"
    "pf_ge (ar_confidence (sales_analysis (3 / 4))) (Fin (7 / 10))"
    "\<not> pf_gt (ar_confidence (sales_analysis (3 / 4))) (Fin (8 / 10))"
    by (simp_all add: sales_analysis_def u_def pf_ge_def pf_gt_def)
  note q = thresholds_of_decide_and_dashboard [OF k, of calm_env "pending_world sales_email"]
  have sf2: "rd_should_forward (decide sample_lib ?Q sales_email)"
    and na: "\<not> auto_approve (decide sample_lib ?Q sales_email)"
    using q x by simp_all
  have mv: "\<not> move_fails calm_env (em_uid sales_email) ''Review'' ''INBOX''"
    by (simp add: calm_env_def)
  have parked: "outbox (fst (process_one sample_lib calm_env ?Q sales_email (pending_world sales_email))) = []"
    "folders (fst (process_one sample_lib calm_env ?Q sales_email (pending_world sales_email))) ''Review''
       = [sales_email]"
    "folders (fst (process_one sample_lib calm_env ?Q sales_email (pending_world sales_email))) ''INBOX''
       = []"
    "pending_reviews (fst (process_one sample_lib calm_env ?Q sales_email (pending_world sales_email))) 13
       = Some \<lparr>pr_email = sales_email, pr_decision = Some (decide sample_lib ?Q sales_email)\<rparr>"
    "map es_status (emails_data (fst (process_one sample_lib calm_env ?Q sales_email
        (pending_world sales_email)))) = [''Review'']"
    using q na mv
    by (simp_all add: pending_world_def inbox_world_def sales_email_def new_status_def)
  show ?thesis
    using sf aa sent sf2 na mv parked by (simp add: fixed_router_fields)
qed

text \<open>
  Claim C1 as stated fails: no single threshold with a meets-or-exceeds comparison
  governs both entry points. At a confidence of exactly 0.8 (and at 0.75)
  \<open>Router.decide\<close> sets should-forward, yet the dashboard does not auto-forward: it
  sends nothing and parks the message for review.
\<close>

theorem two_thresholds_two_comparisons:
  "rd_should_forward (decide sample_lib (fixed_router (sales_analysis (8 / 10))) sales_email)
   \<and> \<not> auto_approve (decide sample_lib (fixed_router (sales_analysis (8 / 10))) sales_email)
   \<and> outbox (fst (process_one sample_lib calm_env (fixed_router (sales_analysis (8 / 10)))
        sales_email (pending_world sales_email))) = []
   \<and> map es_status (emails_data (fst (process_one sample_lib calm_env
        (fixed_router (sales_analysis (8 / 10))) sales_email (pending_world sales_email))))
       = [''Review'']
   \<and> rd_should_forward (decide sample_lib (fixed_router (sales_analysis (3 / 4))) sales_email)
   \<and> \<not> auto_approve (decide sample_lib (fixed_router (sales_analysis (3 / 4))) sales_email)"
  by (simp add: decide_def fixed_router_def sales_analysis_def auto_approve_def pf_ge_def
      pf_gt_def auto_forward_threshold_decide_def auto_forward_threshold_dashboard_def
      process_one_def park_for_review_def move_email_def calm_env_def pending_world_def
      inbox_world_def new_status_def sales_email_def all_destinations_def Let_def u_def)


text \<open>
  Claim C2 says that the spam scenario ends with the message moved to the quarantine
  location, in state \<open>Quarantined\<close>. The analyzer and the decision are as the claim
  says (category \<open>spam\<close>, destination defaulted to \<open>spam@mail.local\<close>, confidence
  0.97, the flag in the reasoning, should-forward true), but the dashboard tests the
  category against \<open>quarantine\<close>: the message is forwarded, moved to \<open>Processed\<close>
  and ends \<open>Forwarded\<close>, and the Quarantine folder stays empty.
\<close>

theorem spam_scenario_is_not_quarantined:
  "ollama_analyze sample_lib retrying_analyzer spam_backend (to_dict spam_email) = spam_analysis
   \<and> ar_category spam_analysis = u ''spam''
   \<and> ar_forward_to spam_analysis = u ''spam@mail.local''
   \<and> ar_confidence spam_analysis = Fin (97 / 100)
   \<and> str_in (u ''phishing_link'') (ar_reasoning spam_analysis)
   \<and> rd_should_forward (decide sample_lib (ollama_router spam_backend) spam_email)
   \<and> map es_status (emails_data (process_emails sample_lib calm_env (ollama_router spam_backend)
        (inbox_world [spam_email]))) = [''Forwarded'']
   \<and> folders (process_emails sample_lib calm_env (ollama_router spam_backend)
        (inbox_world [spam_email])) ''Processed'' = [spam_email]
   \<and> folders (process_emails sample_lib calm_env (ollama_router spam_backend)
        (inbox_world [spam_email])) ''Quarantine'' = []
   \<and> outbox (process_emails sample_lib calm_env (ollama_router spam_backend)
        (inbox_world [spam_email])) = [(11, u ''spam@mail.local'')]"
  using analyze_spam spam_mentions_flag process_spam
  by (simp add: decide_spam) (simp add: spam_analysis_def new_status_def)

text \<open>
  Claim C3 says that an operator approve after the low-confidence vendor scenario
  forwards the message to \<open>vendors@mail.local\<close> and moves it from the review to the
  processed location. The first half holds: should-forward is false and the message
  enters \<open>Review\<close>. But the destination is dropped with the flag, so the approve
  sends nothing and moves nothing; the message stays in the Review folder while its
  record becomes \<open>Forwarded\<close> with no destination.
\<close>

theorem approve_after_low_confidence_sends_nothing:
  "ollama_analyze sample_lib retrying_analyzer vendors_backend (to_dict vendor_email)
     = vendors_analysis
   \<and> ar_forward_to vendors_analysis = u ''vendors@mail.local''
   \<and> ar_confidence vendors_analysis = Fin (55 / 100)
   \<and> rd_should_forward (decide sample_lib (ollama_router vendors_backend) vendor_email) = False
   \<and> map es_status (emails_data (process_emails sample_lib calm_env
        (ollama_router vendors_backend) (inbox_world [vendor_email]))) = [''Review'']
   \<and> map es_forward_to (emails_data (process_emails sample_lib calm_env
        (ollama_router vendors_backend) (inbox_world [vendor_email]))) = [[]]
   \<and> outbox (approve_email calm_env (Some 12) (process_emails sample_lib calm_env
        (ollama_router vendors_backend) (inbox_world [vendor_email]))) = []
   \<and> folders (approve_email calm_env (Some 12) (process_emails sample_lib calm_env
        (ollama_router vendors_backend) (inbox_world [vendor_email]))) ''Review'' = [vendor_email]
   \<and> folders (approve_email calm_env (Some 12) (process_emails sample_lib calm_env
        (ollama_router vendors_backend) (inbox_world [vendor_email]))) ''Processed'' = []
   \<and> map es_status (emails_data (approve_email calm_env (Some 12) (process_emails sample_lib
        calm_env (ollama_router vendors_backend) (inbox_world [vendor_email])))) = [''Forwarded'']
   \<and> map es_forward_to (emails_data (approve_email calm_env (Some 12) (process_emails
        sample_lib calm_env (ollama_router vendors_backend) (inbox_world [vendor_email])))) = [[]]"
  using analyze_vendors process_vendors approve_vendors
  by (simp add: decide_vendors) (simp add: vendors_analysis_def new_status_def)

lemma find_update_first:
  "find (\<lambda>r. es_uid r = uid) rs = Some r \<Longrightarrow> es_uid (f r) = uid
    \<Longrightarrow> find (\<lambda>r. es_uid r = uid) (update_first uid f rs) = Some (f r)"
  by (induction rs) (auto split: if_splits)

lemma reject_after_failed_move:
  assumes "pending_reviews w uid = Some review"
    and "connect_fails E \<or> move_fails E uid ''Skipped'' ''Review''"
  shows "pending_reviews (reject_email E (Some uid) w) uid = None
       \<and> action_log (reject_email E (Some uid) w) = action_log w @ [(uid, ''rejected'', [])]
       \<and> folders (reject_email E (Some uid) w) = folders w
       \<and> outbox (reject_email E (Some uid) w) = outbox w
       \<and> emails_data (reject_email E (Some uid) w)
           = update_first uid (\<lambda>r. r\<lparr>es_status := ''Skipped'', es_needs_review := False\<rparr>)
               (emails_data w)
       \<and> (find (\<lambda>r. es_uid r = uid) (emails_data w) = Some r \<longrightarrow>
            find (\<lambda>r. es_uid r = uid) (emails_data (reject_email E (Some uid) w))
              = Some (r\<lparr>es_status := ''Skipped'', es_needs_review := False\<rparr>))"
proof -
  let ?w1 = "if connect_fails E then w else fst (move_email E uid ''Skipped'' ''Review'' w)"
  have f: "folders ?w1 = folders w" "outbox ?w1 = outbox w" "emails_data ?w1 = emails_data w"
    "action_log ?w1 = action_log w"
    using assms(2) by (auto simp: move_email_fields)
  have u: "find (\<lambda>r. es_uid r = uid) (emails_data w) = Some r \<longrightarrow>
      find (\<lambda>r. es_uid r = uid)
        (update_first uid (\<lambda>r. r\<lparr>es_status := ''Skipped'', es_needs_review := False\<rparr>)
           (emails_data w))
      = Some (r\<lparr>es_status := ''Skipped'', es_needs_review := False\<rparr>)"
  proof
    assume a: "find (\<lambda>r. es_uid r = uid) (emails_data w) = Some r"
    then have "es_uid r = uid" by (auto simp: find_Some_iff)
    then show "find (\<lambda>r. es_uid r = uid)
        (update_first uid (\<lambda>r. r\<lparr>es_status := ''Skipped'', es_needs_review := False\<rparr>)
           (emails_data w))
      = Some (r\<lparr>es_status := ''Skipped'', es_needs_review := False\<rparr>)"
      using find_update_first [OF a] by simp
  qed
  show ?thesis
    using assms(1) f u by (simp add: reject_email_def Let_def)
qed


text \<open>
  Claim C10. When an operator rejects a pending message and the move to the Skipped
  folder fails (the connection or the move itself), the reject still completes: the
  record of the message is marked \<open>Skipped\<close> with needs-review cleared, the entry
  leaves the pending-review map, the rejection is logged, nothing is sent, and the
  folders of the mail store are as before, so the message is still in Review.
\<close>

theorem reject_completes_when_move_fails:
  assumes "pending_reviews w uid = Some review"
    and "connect_fails E \<or> move_fails E uid ''Skipped'' ''Review''"
  shows "pending_reviews (reject_email E (Some uid) w) uid = None
       \<and> action_log (reject_email E (Some uid) w) = action_log w @ [(uid, ''rejected'', [])]
       \<and> folders (reject_email E (Some uid) w) = folders w
       \<and> outbox (reject_email E (Some uid) w) = outbox w
       \<and> emails_data (reject_email E (Some uid) w)
           = update_first uid (\<lambda>r. r\<lparr>es_status := ''Skipped'', es_needs_review := False\<rparr>)
               (emails_data w)
       \<and> (find (\<lambda>r. es_uid r = uid) (emails_data w) = Some r \<longrightarrow>
            find (\<lambda>r. es_uid r = uid) (emails_data (reject_email E (Some uid) w))
              = Some (r\<lparr>es_status := ''Skipped'', es_needs_review := False\<rparr>))"
  using assms by (rule reject_after_failed_move)

lemma parked_facts:
  "pending_reviews parked_world 12
     = Some \<lparr>pr_email = vendor_email,
             pr_decision = Some (decide sample_lib (ollama_router vendors_backend) vendor_email)\<rparr>"
  "folders parked_world ''Review'' = [vendor_email]"
  "map es_status (emails_data parked_world) = [''Review'']"
  "map es_uid (emails_data parked_world) = [12]"
  "action_log parked_world = []"
  using process_vendors
  by (simp_all add: parked_world_def new_status_def vendor_email_def)
     (simp add: dashboard_defs decide_vendors vendor_email_def vendors_analysis_def Let_def u_def)

theorem reject_completes_when_move_fails_witness:
  "pending_reviews parked_world 12
     = Some \<lparr>pr_email = vendor_email,
             pr_decision = Some (decide sample_lib (ollama_router vendors_backend) vendor_email)\<rparr>
   \<and> move_fails stuck_env 12 ''Skipped'' ''Review''
   \<and> folders parked_world ''Review'' = [vendor_email]
   \<and> pending_reviews rejected_world 12 = None
   \<and> action_log rejected_world = [(12, ''rejected'', [])]
   \<and> folders rejected_world ''Review'' = [vendor_email]
   \<and> map es_status (emails_data rejected_world) = [''Skipped'']
   \<and> map es_needs_review (emails_data rejected_world) = [False]"
proof -
  have m: "connect_fails stuck_env \<or> move_fails stuck_env 12 ''Skipped'' ''Review''"
    by (simp add: stuck_env_def)
  note t = reject_completes_when_move_fails [OF parked_facts(1) m]
  have e: "emails_data parked_world
     = [(new_status vendor_email ''Review'' True)
          \<lparr>es_category := u ''vendors'', es_confidence := Fin (55 / 100),
           es_reasoning := ar_reasoning vendors_analysis\<rparr>]"
    using process_vendors(1) by (simp add: parked_world_def)
  have "map es_status (emails_data rejected_world) = [''Skipped'']"
    "map es_needs_review (emails_data rejected_world) = [False]"
    using t e by (simp_all add: rejected_world_def new_status_def vendor_email_def)
  then show ?thesis
    using t parked_facts m by (simp add: rejected_world_def stuck_env_def)
qed







lemma rehydrate_keeps_pending:
  "pending_reviews w k \<noteq> None \<Longrightarrow> pending_reviews (snd (rehydrate es ex w)) k \<noteq> None"
  by (induction es arbitrary: ex w) (auto simp: Let_def)

lemma rehydrate_pending:
  "\<forall>e \<in> set es. pending_reviews (snd (rehydrate es ex w)) (em_uid e) \<noteq> None"
proof (induction es arbitrary: ex w)
  case Nil
  then show ?case by simp
next
  case (Cons e rest)
  let ?w1 = "if em_uid e \<notin> ex
             then w\<lparr>emails_data := emails_data w @ [new_status e ''Review'' True]\<rparr> else w"
  let ?ex1 = "if em_uid e \<notin> ex then insert (em_uid e) ex else ex"
  let ?w2 = "if pending_reviews ?w1 (em_uid e) = None
             then ?w1\<lparr>pending_reviews :=
                    (pending_reviews ?w1)(em_uid e \<mapsto> \<lparr>pr_email = e, pr_decision = None\<rparr>)\<rparr>
             else ?w1"
  have step: "rehydrate (e # rest) ex w = rehydrate rest ?ex1 ?w2"
    by (simp add: Let_def)
  have "pending_reviews ?w2 (em_uid e) \<noteq> None" by auto
  then have "pending_reviews (snd (rehydrate rest ?ex1 ?w2)) (em_uid e) \<noteq> None"
    by (rule rehydrate_keeps_pending)
  moreover have "\<forall>x \<in> set rest. pending_reviews (snd (rehydrate rest ?ex1 ?w2)) (em_uid x) \<noteq> None"
    using Cons.IH by blast
  ultimately show ?case unfolding step by simp
qed

















end
